theory Spec2Isabelle
  imports Main "HOL-Library.Multiset"
begin

section \<open>Label synchronisation: \<^verbatim>\<open>src/spine_cicd_actions/sync_labels.py\<close>\<close>

subsection \<open>Data\<close>

text \<open>
  The dictionary that \<^verbatim>\<open>get_labels\<close> builds for every label of the source repository:
  the three keys \<^verbatim>\<open>"name"\<close>, \<^verbatim>\<open>"color"\<close> and \<^verbatim>\<open>"description"\<close>.
\<close>

record label_data =
  name :: string
  color :: string
  description :: string

text \<open>
  A label object as the GitHub client library hands it out: its description may be
  \<^verbatim>\<open>None\<close>.
\<close>

record gh_label =
  gh_name :: string
  gh_color :: string
  gh_description :: "string option"

text \<open>
  A repository object of the client library, with the two attributes the script reads:
  \<^verbatim>\<open>full_name\<close>, and \<^verbatim>\<open>organization.login\<close>, which is absent (\<^verbatim>\<open>organization\<close> is
  \<^verbatim>\<open>None\<close>) for a repository owned by a user.
\<close>

record repository =
  full_name :: string
  organization_login :: "string option"

text \<open>
  \<^verbatim>\<open>GithubException\<close>: \<^verbatim>\<open>str(e)\<close> is the text of the exception and \<^verbatim>\<open>e.data\<close> the decoded
  body of the response. The body is a dictionary when the service answered with a JSON
  object; it is \<open>None\<close> here when the response had no body or a body that is not an object,
  the values that have no \<^verbatim>\<open>get\<close>.
\<close>

record github_exception =
  e_data :: "(string \<times> string) list option"
  e_str :: string

text \<open>
  The exceptions of a run: the one of the client library, those Python raises itself, the
  one of the YAML parser, and any other exception, by name, that a call of the client
  library lets through (a connection that fails, for example).
\<close>

datatype py_exception =
    GithubException github_exception
  | AttributeError
  | TypeError
  | YAMLError
  | Other_exception string

text \<open>
  \<^verbatim>\<open>e.data.get('message', str(e))\<close>: an \<^verbatim>\<open>AttributeError\<close> when \<^verbatim>\<open>e.data\<close> has no \<^verbatim>\<open>get\<close>.
\<close>

definition message :: "github_exception \<Rightarrow> py_exception + string" where
  "message e =
     (case e_data e of
        None \<Rightarrow> Inl AttributeError
      | Some d \<Rightarrow> Inr (case map_of d ''message'' of Some m \<Rightarrow> m | None \<Rightarrow> e_str e))"

subsection \<open>The remote service\<close>

text \<open>
  The GitHub client library is not part of the repository, so the three calls the script
  makes are parameters of the model. \<open>'w\<close> is the state of the remote service. Reading
  (\<^verbatim>\<open>g.get_repo\<close>, \<^verbatim>\<open>repo.get_labels\<close>) returns a value or raises, and leaves the service as
  it is; \<^verbatim>\<open>repo.create_label\<close> returns the new state of the service or raises. What a call
  raises is a \<^verbatim>\<open>GithubException\<close> or any other exception.
\<close>

record 'w github =
  api_get_repo :: "'w \<Rightarrow> string \<Rightarrow> py_exception + repository"
  api_get_labels :: "'w \<Rightarrow> repository \<Rightarrow> py_exception + gh_label list"
  api_create_label ::
    "'w \<Rightarrow> repository \<Rightarrow> string \<Rightarrow> string \<Rightarrow> string \<Rightarrow> py_exception + 'w"

text \<open>The requests sent to the service, in the order in which they are sent.\<close>

datatype api_call =
    Get_repo string
  | Get_labels string
  | Create_label string string string string

text \<open>The lines the script prints, one constructor for each \<^verbatim>\<open>print\<close> that reports a value.\<close>

datatype line =
    Syncing_labels_to string
  | Label_already_exists string
  | Would_create_label string
  | Created_label string
  | Failed_to_create_label string string
  | Summary_for string nat nat nat
  | No_github_token
  | No_github_repository
  | Failed_to_access_repository string
  | Source_repository string
  | Organization string
  | Found_labels nat
  | Repos_file_not_found
  | Downstream_repositories nat
  | Downstream_repository string
  | Final_summary nat nat nat

text \<open>
  What a run acts on: the remote service, standard output, and the trace of the requests
  it has sent.
\<close>

record 'w process =
  world :: 'w
  out :: "line list"
  calls :: "api_call list"

definition print :: "line \<Rightarrow> 'w process \<Rightarrow> 'w process" where
  "print l p = p\<lparr>out := out p @ [l]\<rparr>"

definition get_repo :: "'w github \<Rightarrow> string \<Rightarrow> 'w process \<Rightarrow>
    (py_exception + repository) \<times> 'w process" where
  "get_repo g full_name_or_id p =
     (api_get_repo g (world p) full_name_or_id,
      p\<lparr>calls := calls p @ [Get_repo full_name_or_id]\<rparr>)"

definition repo_get_labels :: "'w github \<Rightarrow> repository \<Rightarrow> 'w process \<Rightarrow>
    (py_exception + gh_label list) \<times> 'w process" where
  "repo_get_labels g repo p =
     (api_get_labels g (world p) repo,
      p\<lparr>calls := calls p @ [Get_labels (full_name repo)]\<rparr>)"

definition create_label :: "'w github \<Rightarrow> repository \<Rightarrow> string \<Rightarrow> string \<Rightarrow> string \<Rightarrow>
    'w process \<Rightarrow> (py_exception + unit) \<times> 'w process" where
  "create_label g repo n c d p =
     (let p' = p\<lparr>calls := calls p @ [Create_label (full_name repo) n c d]\<rparr>
      in case api_create_label g (world p) repo n c d of
           Inl x \<Rightarrow> (Inl x, p')
         | Inr w' \<Rightarrow> (Inr (), p'\<lparr>world := w'\<rparr>))"

subsection \<open>\<^verbatim>\<open>get_labels\<close>\<close>

definition get_labels :: "'w github \<Rightarrow> repository \<Rightarrow> 'w process \<Rightarrow>
    (py_exception + label_data list) \<times> 'w process" where
  "get_labels g repo p =
     (case repo_get_labels g repo p of
        (Inl x, p') \<Rightarrow> (Inl x, p')
      | (Inr ls, p') \<Rightarrow>
          (Inr (map (\<lambda>label. \<lparr>name = gh_name label, color = gh_color label,
                     description = (case gh_description label of
                                      None \<Rightarrow> '''' | Some d \<Rightarrow> d)\<rparr>) ls), p'))"

subsection \<open>\<^verbatim>\<open>sync_labels_to_repo\<close>\<close>

text \<open>The three counters of the loop.\<close>

record tally =
  created_count :: nat
  skipped_count :: nat
  error_count :: nat

text \<open>
  \<^verbatim>\<open>{label.name: label for label in target_repo.get_labels()}\<close>: a later label of the same
  name replaces an earlier one.
\<close>

definition existing_labels_of :: "gh_label list \<Rightarrow> (string \<rightharpoonup> gh_label)" where
  "existing_labels_of ls = foldl (\<lambda>m label. m(gh_name label \<mapsto> label)) Map.empty ls"

text \<open>
  The body of the loop over \<^verbatim>\<open>source_labels\<close>. It returns the counters, or the exception
  that leaves the loop: the \<^verbatim>\<open>except\<close> clause catches \<^verbatim>\<open>GithubException\<close> only, and its
  handler reads the message before it counts the error, so an exception that is not a
  \<^verbatim>\<open>GithubException\<close> and the \<^verbatim>\<open>AttributeError\<close> of \<^verbatim>\<open>message\<close> both leave the function.
\<close>

definition sync_label :: "'w github \<Rightarrow> repository \<Rightarrow> (string \<rightharpoonup> gh_label) \<Rightarrow> bool \<Rightarrow>
    label_data \<Rightarrow> tally \<times> 'w process \<Rightarrow> (py_exception + tally) \<times> 'w process" where
  "sync_label g target_repo existing_labels dry_run label_data s =
     (let t = fst s; p = snd s;
          label_name = name label_data;
          label_color = color label_data;
          label_description = description label_data
      in if existing_labels label_name \<noteq> None then
           (Inr (t\<lparr>skipped_count := skipped_count t + 1\<rparr>),
            print (Label_already_exists label_name) p)
         else if dry_run then
           (Inr (t\<lparr>created_count := created_count t + 1\<rparr>),
            print (Would_create_label label_name) p)
         else
           (case create_label g target_repo label_name label_color label_description p of
              (Inr u, p') \<Rightarrow>
                (Inr (t\<lparr>created_count := created_count t + 1\<rparr>),
                 print (Created_label label_name) p')
            | (Inl x, p') \<Rightarrow>
                (case x of
                   GithubException e \<Rightarrow>
                     (case message e of
                        Inl y \<Rightarrow> (Inl y, p')
                      | Inr error_msg \<Rightarrow>
                          (Inr (t\<lparr>error_count := error_count t + 1\<rparr>),
                           print (Failed_to_create_label label_name error_msg) p'))
                 | _ \<Rightarrow> (Inl x, p'))))"

fun sync_loop :: "'w github \<Rightarrow> repository \<Rightarrow> (string \<rightharpoonup> gh_label) \<Rightarrow> bool \<Rightarrow>
    label_data list \<Rightarrow> tally \<times> 'w process \<Rightarrow> (py_exception + tally) \<times> 'w process" where
  "sync_loop g target_repo existing_labels dry_run [] s = (Inr (fst s), snd s)"
| "sync_loop g target_repo existing_labels dry_run (label_data # source_labels) s =
     (case sync_label g target_repo existing_labels dry_run label_data s of
        (Inl x, p') \<Rightarrow> (Inl x, p')
      | (Inr t', p') \<Rightarrow>
          sync_loop g target_repo existing_labels dry_run source_labels (t', p'))"

text \<open>
  The function returns the triple of counters, or raises: the exception of the listing of
  the target's labels, which is outside every \<^verbatim>\<open>try\<close>, or the one that left the loop.
\<close>

definition sync_labels_to_repo :: "'w github \<Rightarrow> label_data list \<Rightarrow> repository \<Rightarrow> bool \<Rightarrow>
    'w process \<Rightarrow> (py_exception + nat \<times> nat \<times> nat) \<times> 'w process" where
  "sync_labels_to_repo g source_labels target_repo dry_run p =
     (case repo_get_labels g target_repo (print (Syncing_labels_to (full_name target_repo)) p) of
        (Inl x, p') \<Rightarrow> (Inl x, p')
      | (Inr ls, p') \<Rightarrow>
          (case sync_loop g target_repo (existing_labels_of ls) dry_run source_labels
                  (\<lparr>created_count = 0, skipped_count = 0, error_count = 0\<rparr>, p') of
             (Inl x, p'') \<Rightarrow> (Inl x, p'')
           | (Inr t, p'') \<Rightarrow>
               (Inr (created_count t, skipped_count t, error_count t),
                print (Summary_for (full_name target_repo)
                         (created_count t) (skipped_count t) (error_count t)) p'')))"

subsection \<open>\<^verbatim>\<open>load_repos\<close>\<close>

text \<open>
  What \<^verbatim>\<open>yaml.safe_load\<close> returns: \<^verbatim>\<open>None\<close>, a scalar, a string, a list or a dictionary
  (given by its items). The file \<^verbatim>\<open>repos.yaml\<close> is modelled by what the parser makes of
  its content: a document, or \<^verbatim>\<open>YAMLError\<close> when it cannot be parsed.
\<close>

datatype yaml =
    YNull
  | YBool bool
  | YInt int
  | YStr string
  | YSeq "yaml list"
  | YMap "(yaml \<times> yaml) list"

datatype repos_yaml = Unparseable | Document yaml

text \<open>
  \<^verbatim>\<open>data.get("repos", [])\<close>: only a dictionary has \<^verbatim>\<open>get\<close>, and the default is returned
  only when the key is absent.
\<close>

definition load_repos :: "repos_yaml \<Rightarrow> py_exception + yaml" where
  "load_repos repos_file =
     (case repos_file of
        Unparseable \<Rightarrow> Inl YAMLError
      | Document data \<Rightarrow>
          (case data of
             YMap items \<Rightarrow>
               Inr (case map_of items (YStr ''repos'') of Some v \<Rightarrow> v | None \<Rightarrow> YSeq [])
           | _ \<Rightarrow> Inl AttributeError))"

text \<open>Python's \<^verbatim>\<open>len\<close> and \<^verbatim>\<open>for\<close> on such a value.\<close>

fun py_len :: "yaml \<Rightarrow> py_exception + nat" where
  "py_len (YStr s) = Inr (length s)"
| "py_len (YSeq xs) = Inr (length xs)"
| "py_len (YMap items) = Inr (length items)"
| "py_len v = Inl TypeError"

fun py_iter :: "yaml \<Rightarrow> py_exception + yaml list" where
  "py_iter (YStr s) = Inr (map (\<lambda>c. YStr [c]) s)"
| "py_iter (YSeq xs) = Inr xs"
| "py_iter (YMap items) = Inr (map fst items)"
| "py_iter v = Inl TypeError"

text \<open>
  An entry inside an f-string: a string stands for itself; for any other value Python's
  \<^verbatim>\<open>str\<close> is the parameter \<open>py_str\<close>.
\<close>

definition py_format :: "(yaml \<Rightarrow> string) \<Rightarrow> yaml \<Rightarrow> string" where
  "py_format py_str v = (case v of YStr s \<Rightarrow> s | _ \<Rightarrow> py_str v)"

subsection \<open>\<^verbatim>\<open>main\<close>\<close>

record environ =
  GITHUB_TOKEN :: "string option"
  GITHUB_REPOSITORY :: "string option"

record totals =
  total_created :: nat
  total_skipped :: nat
  total_errors :: nat

text \<open>
  How the process ends: \<^verbatim>\<open>sys.exit(n)\<close>, the end of \<^verbatim>\<open>main\<close> (status 0), or an exception
  that nothing catches, on which the interpreter exits with status 1.
\<close>

datatype exit = Exit nat | Uncaught py_exception

fun exit_code :: "exit \<Rightarrow> nat" where
  "exit_code (Exit n) = n"
| "exit_code (Uncaught e) = 1"

text \<open>\<^verbatim>\<open>f"{org_name}/{repo_name}"\<close>\<close>

definition full_repo_name_of :: "(yaml \<Rightarrow> string) \<Rightarrow> string \<Rightarrow> yaml \<Rightarrow> string" where
  "full_repo_name_of py_str org_name repo_name = org_name @ ''/'' @ py_format py_str repo_name"

text \<open>
  The body of the loop over \<^verbatim>\<open>downstream_repos\<close>. The call of \<^verbatim>\<open>sync_labels_to_repo\<close>
  passes no third argument, so \<^verbatim>\<open>dry_run\<close> has its default \<^verbatim>\<open>False\<close>. The \<^verbatim>\<open>except\<close> clause
  catches the \<^verbatim>\<open>GithubException\<close> of \<^verbatim>\<open>g.get_repo\<close> and the one \<^verbatim>\<open>sync_labels_to_repo\<close>
  raises; any other exception leaves the loop.
\<close>

definition sync_target :: "'w github \<Rightarrow> (yaml \<Rightarrow> string) \<Rightarrow> label_data list \<Rightarrow> string \<Rightarrow>
    yaml \<Rightarrow> totals \<times> 'w process \<Rightarrow> (py_exception + totals) \<times> 'w process" where
  "sync_target g py_str source_labels org_name repo_name s =
     (let tot = fst s; p = snd s;
          full_repo_name = full_repo_name_of py_str org_name repo_name
      in case get_repo g full_repo_name p of
           (Inl x, p1) \<Rightarrow>
             (case x of
                GithubException e \<Rightarrow>
                  (Inr (tot\<lparr>total_errors := total_errors tot + 1\<rparr>),
                   print (Failed_to_access_repository full_repo_name) p1)
              | _ \<Rightarrow> (Inl x, p1))
         | (Inr target_repo, p1) \<Rightarrow>
             (case sync_labels_to_repo g source_labels target_repo False p1 of
                (Inl x, p2) \<Rightarrow>
                  (case x of
                     GithubException e \<Rightarrow>
                       (Inr (tot\<lparr>total_errors := total_errors tot + 1\<rparr>),
                        print (Failed_to_access_repository full_repo_name) p2)
                   | _ \<Rightarrow> (Inl x, p2))
              | (Inr (created, skipped, errors), p2) \<Rightarrow>
                  (Inr (tot\<lparr>total_created := total_created tot + created,
                            total_skipped := total_skipped tot + skipped,
                            total_errors := total_errors tot + errors\<rparr>), p2)))"

fun sync_targets :: "'w github \<Rightarrow> (yaml \<Rightarrow> string) \<Rightarrow> label_data list \<Rightarrow> string \<Rightarrow>
    yaml list \<Rightarrow> totals \<times> 'w process \<Rightarrow> (py_exception + totals) \<times> 'w process" where
  "sync_targets g py_str source_labels org_name [] s = (Inr (fst s), snd s)"
| "sync_targets g py_str source_labels org_name (repo_name # downstream_repos) s =
     (case sync_target g py_str source_labels org_name repo_name s of
        (Inl x, p') \<Rightarrow> (Inl x, p')
      | (Inr tot', p') \<Rightarrow>
          sync_targets g py_str source_labels org_name downstream_repos (tot', p'))"

text \<open>
  From the loading of \<^verbatim>\<open>repos.yaml\<close> to the end of \<^verbatim>\<open>main\<close>. \<open>repos_file\<close> is \<open>None\<close>
  when the file does not exist.
\<close>

definition main_targets :: "'w github \<Rightarrow> (yaml \<Rightarrow> string) \<Rightarrow> repos_yaml option \<Rightarrow>
    label_data list \<Rightarrow> string \<Rightarrow> 'w process \<Rightarrow> exit \<times> 'w process" where
  "main_targets g py_str repos_file source_labels org_name p =
     (case repos_file of
        None \<Rightarrow> (Exit 1, print Repos_file_not_found p)
      | Some f \<Rightarrow>
          (case load_repos f of
             Inl x \<Rightarrow> (Uncaught x, p)
           | Inr downstream_repos \<Rightarrow>
               (case py_len downstream_repos of
                  Inl x \<Rightarrow> (Uncaught x, p)
                | Inr n \<Rightarrow>
                    (case py_iter downstream_repos of
                       Inl x \<Rightarrow> (Uncaught x, print (Downstream_repositories n) p)
                     | Inr repos \<Rightarrow>
                         (let p1 = foldl (\<lambda>q repo. print (Downstream_repository
                                       (py_format py_str repo)) q)
                                     (print (Downstream_repositories n) p) repos
                          in case sync_targets g py_str source_labels org_name repos
                                    (\<lparr>total_created = 0, total_skipped = 0,
                                      total_errors = 0\<rparr>, p1) of
                               (Inl x, p2) \<Rightarrow> (Uncaught x, p2)
                             | (Inr tot, p2) \<Rightarrow>
                                 (let p3 = print (Final_summary (total_created tot)
                                            (total_skipped tot) (total_errors tot)) p2
                                  in if total_errors tot > 0 then (Exit 1, p3)
                                     else (Exit 0, p3)))))))"

text \<open>
  From the access to the source repository on. The \<^verbatim>\<open>try\<close> around the access catches
  \<^verbatim>\<open>GithubException\<close> only; the listing of the source labels is outside it.
\<close>

definition main_source :: "'w github \<Rightarrow> (yaml \<Rightarrow> string) \<Rightarrow> repos_yaml option \<Rightarrow> string \<Rightarrow>
    'w process \<Rightarrow> exit \<times> 'w process" where
  "main_source g py_str repos_file current_repo_name p =
     (case get_repo g current_repo_name p of
        (Inl x, p1) \<Rightarrow>
          (case x of
             GithubException e \<Rightarrow>
               (Exit 1, print (Failed_to_access_repository current_repo_name) p1)
           | _ \<Rightarrow> (Uncaught x, p1))
      | (Inr source_repo, p1) \<Rightarrow>
          (case organization_login source_repo of
             None \<Rightarrow> (Uncaught AttributeError, p1)
           | Some org_name \<Rightarrow>
               (case get_labels g source_repo
                       (print (Organization org_name)
                         (print (Source_repository (full_name source_repo)) p1)) of
                  (Inl x, p2) \<Rightarrow> (Uncaught x, p2)
                | (Inr source_labels, p2) \<Rightarrow>
                    main_targets g py_str repos_file source_labels org_name
                      (print (Found_labels (length source_labels)) p2))))"

text \<open>\<^verbatim>\<open>if not v\<close> for a variable of the environment: unset or empty.\<close>

definition not_set :: "string option \<Rightarrow> bool" where
  "not_set v = (case v of None \<Rightarrow> True | Some s \<Rightarrow> s = [])"

definition main :: "'w github \<Rightarrow> (yaml \<Rightarrow> string) \<Rightarrow> environ \<Rightarrow> repos_yaml option \<Rightarrow> 'w \<Rightarrow>
    exit \<times> 'w process" where
  "main g py_str env repos_file w =
     (let p = \<lparr>world = w, out = [], calls = []\<rparr>
      in if not_set (GITHUB_TOKEN env) then (Exit 1, print No_github_token p)
         else case GITHUB_REPOSITORY env of
                None \<Rightarrow> (Exit 1, print No_github_repository p)
              | Some current_repo_name \<Rightarrow>
                  if current_repo_name = [] then (Exit 1, print No_github_repository p)
                  else main_source g py_str repos_file current_repo_name p)"

subsection \<open>Outcomes\<close>

text \<open>
  \<^verbatim>\<open>sync_labels_to_repo\<close> returns three counters and prints the name of every label it
  counts. The lists of names of an outcome are read off the printed lines: a label is
  under \<open>created\<close> when the line says that it was created or would be created, under
  \<open>skipped_existing\<close> when the line says that it exists already, and under \<open>errors\<close>,
  with the message, when the line says that its creation failed.
\<close>

fun created_of :: "line \<Rightarrow> string list" where
  "created_of (Created_label n) = [n]"
| "created_of (Would_create_label n) = [n]"
| "created_of l = []"

fun skipped_of :: "line \<Rightarrow> string list" where
  "skipped_of (Label_already_exists n) = [n]"
| "skipped_of l = []"

fun error_of :: "line \<Rightarrow> (string \<times> string) list" where
  "error_of (Failed_to_create_label n m) = [(n, m)]"
| "error_of l = []"

definition created :: "line list \<Rightarrow> string list" where
  "created ls = concat (map created_of ls)"

definition skipped_existing :: "line list \<Rightarrow> string list" where
  "skipped_existing ls = concat (map skipped_of ls)"

definition errors :: "line list \<Rightarrow> (string \<times> string) list" where
  "errors ls = concat (map error_of ls)"

text \<open>What a step printed and requested: the lines and the calls added between \<open>p\<close> and \<open>p'\<close>.\<close>

definition new_lines :: "'w process \<Rightarrow> 'w process \<Rightarrow> line list" where
  "new_lines p p' = drop (length (out p)) (out p')"

definition new_calls :: "'w process \<Rightarrow> 'w process \<Rightarrow> api_call list" where
  "new_calls p p' = drop (length (calls p)) (calls p')"

text \<open>The request that creates a label of the source in a repository.\<close>

definition create_call :: "repository \<Rightarrow> label_data \<Rightarrow> api_call" where
  "create_call repo l = Create_label (full_name repo) (name l) (color l) (description l)"

text \<open>The final summary of a run, when it printed one.\<close>

fun final_summary_of :: "line \<Rightarrow> (nat \<times> nat \<times> nat) list" where
  "final_summary_of (Final_summary c s e) = [(c, s, e)]"
| "final_summary_of l = []"

definition final_summary :: "line list \<Rightarrow> (nat \<times> nat \<times> nat) list" where
  "final_summary ls = concat (map final_summary_of ls)"

text \<open>The names of the repositories requested with \<^verbatim>\<open>g.get_repo\<close>.\<close>

fun get_repo_of :: "api_call \<Rightarrow> string list" where
  "get_repo_of (Get_repo n) = [n]"
| "get_repo_of c = []"

definition get_repo_requests :: "api_call list \<Rightarrow> string list" where
  "get_repo_requests cs = concat (map get_repo_of cs)"

subsection \<open>A remote service to run the script against\<close>

text \<open>
  The state of this service holds the labels of every repository, by full name. The
  service knows the repositories \<open>repos\<close>, all owned by the organisation \<open>org\<close>, refuses
  to list the labels of the repositories \<open>unreadable\<close>, and raises the exception that
  \<open>raising\<close> gives for its name when a label is created. A created label is added to the
  labels of its repository.
\<close>

type_synonym hub = "(string \<times> gh_label list) list"

definition labels_of :: "hub \<Rightarrow> string \<Rightarrow> gh_label list" where
  "labels_of w n = (case map_of w n of None \<Rightarrow> [] | Some ls \<Rightarrow> ls)"

definition not_found :: github_exception where
  "not_found = \<lparr>e_data = Some [(''message'', ''Not Found'')], e_str = ''404''\<rparr>"

definition forbidden :: github_exception where
  "forbidden = \<lparr>e_data = Some [], e_str = ''403''\<rparr>"

definition validation_failed :: github_exception where
  "validation_failed = \<lparr>e_data = Some [(''message'', ''Validation Failed'')], e_str = ''422''\<rparr>"

definition example_github :: "string \<Rightarrow> string list \<Rightarrow> string list \<Rightarrow>
    (string \<times> py_exception) list \<Rightarrow> hub github" where
  "example_github org repos unreadable raising =
     \<lparr>api_get_repo = (\<lambda>w n. if n \<in> set repos
          then Inr \<lparr>full_name = n, organization_login = Some org\<rparr>
          else Inl (GithubException not_found)),
      api_get_labels = (\<lambda>w r. if full_name r \<in> set unreadable
          then Inl (GithubException forbidden) else Inr (labels_of w (full_name r))),
      api_create_label = (\<lambda>w r n c d. case map_of raising n of
            Some x \<Rightarrow> Inl x
          | None \<Rightarrow> Inr ((full_name r, labels_of w (full_name r) @
                 [\<lparr>gh_name = n, gh_color = c, gh_description = Some d\<rparr>]) # w))\<rparr>"

definition svc_a :: repository where
  "svc_a = \<lparr>full_name = ''acme/svc-a'', organization_login = Some ''acme''\<rparr>"

definition bug :: label_data where
  "bug = \<lparr>name = ''bug'', color = ''ff0000'', description = []\<rparr>"

definition docs :: label_data where
  "docs = \<lparr>name = ''docs'', color = ''0000ff'', description = ''Documentation''\<rparr>"

definition wontfix :: label_data where
  "wontfix = \<lparr>name = ''wontfix'', color = ''ffffff'', description = ''Will not be fixed''\<rparr>"

definition gh_bug :: gh_label where
  "gh_bug = \<lparr>gh_name = ''bug'', gh_color = ''ff0000'', gh_description = None\<rparr>"

definition gh_docs :: gh_label where
  "gh_docs = \<lparr>gh_name = ''docs'', gh_color = ''0000ff'',
     gh_description = Some ''Documentation''\<rparr>"

definition start :: "hub \<Rightarrow> hub process" where
  "start w = \<lparr>world = w, out = [], calls = []\<rparr>"

definition example_env :: environ where
  "example_env = \<lparr>GITHUB_TOKEN = Some ''t'', GITHUB_REPOSITORY = Some ''acme/labels''\<rparr>"

definition example_str :: "yaml \<Rightarrow> string" where
  "example_str v = ''?''"

text \<open>
  The organisation \<open>acme\<close>: the source repository \<open>acme/labels\<close> and the targets
  \<open>acme/svc-a\<close> and \<open>acme/svc-b\<close>; the labels of \<open>acme/svc-b\<close> cannot be listed. With
  \<open>acme_rejecting\<close> the creation of the labels named is refused (status 422, with a
  message); with \<open>acme_offline\<close> the connection fails when \<open>docs\<close> is created, which the
  client library reports with an exception of its transport layer.
\<close>

definition acme_raising :: "(string \<times> py_exception) list \<Rightarrow> hub github" where
  "acme_raising raising =
     example_github ''acme'' [''acme/labels'', ''acme/svc-a'', ''acme/svc-b'']
       [''acme/svc-b''] raising"

definition acme_rejecting :: "string list \<Rightarrow> hub github" where
  "acme_rejecting rejected =
     acme_raising (map (\<lambda>n. (n, GithubException validation_failed)) rejected)"

definition acme :: "hub github" where
  "acme = acme_rejecting []"

definition acme_offline :: "hub github" where
  "acme_offline = acme_raising [(''docs'', Other_exception ''ConnectionError'')]"

definition hub0 :: hub where
  "hub0 = [(''acme/labels'', [gh_bug, gh_docs]), (''acme/svc-a'', [gh_bug])]"

text \<open>
  Two real runs in a row against \<open>acme/svc-a\<close>, on a service that rejects the creation of
  the label \<open>docs\<close>: the process after the first run, and after the second.
\<close>

definition rejected_run1 :: "hub process" where
  "rejected_run1 =
     snd (sync_labels_to_repo (acme_rejecting [''docs'']) [bug, docs] svc_a False (start hub0))"

definition rejected_run2 :: "hub process" where
  "rejected_run2 =
     snd (sync_labels_to_repo (acme_rejecting [''docs'']) [bug, docs] svc_a False rejected_run1)"

text \<open>
  Contents of \<^verbatim>\<open>repos.yaml\<close>: one target, two targets, an empty list of targets, and the
  key \<^verbatim>\<open>repos\<close> with nothing after the colon, which YAML reads as \<^verbatim>\<open>null\<close>.
\<close>

definition repos_one :: repos_yaml where
  "repos_one = Document (YMap [(YStr ''repos'', YSeq [YStr ''svc-a''])])"

definition repos_two :: repos_yaml where
  "repos_two = Document (YMap [(YStr ''repos'', YSeq [YStr ''svc-a'', YStr ''svc-b''])])"

definition repos_none :: repos_yaml where
  "repos_none = Document (YMap [(YStr ''repos'', YSeq [])])"

definition repos_null :: repos_yaml where
  "repos_null = Document (YMap [(YStr ''repos'', YNull)])"

text \<open>The repository \<open>acme/svc-b\<close>, and the counters before a loop.\<close>

definition svc_b :: repository where
  "svc_b = \<lparr>full_name = ''acme/svc-b'', organization_login = Some ''acme''\<rparr>"

definition no_tally :: tally where
  "no_tally = \<lparr>created_count = 0, skipped_count = 0, error_count = 0\<rparr>"

definition no_totals :: totals where
  "no_totals = \<lparr>total_created = 0, total_skipped = 0, total_errors = 0\<rparr>"

text \<open>An environment naming a source repository that does not exist.\<close>

definition env_missing :: environ where
  "env_missing = \<lparr>GITHUB_TOKEN = Some ''t'', GITHUB_REPOSITORY = Some ''acme/gone''\<rparr>"

section \<open>Properties\<close>

subsection \<open>The loop over the labels\<close>

lemma existing_labels_of_dom:
  "(existing_labels_of ls n \<noteq> None) = (n \<in> gh_name ` set ls)"
proof -
  have "(foldl (\<lambda>m label. m(gh_name label \<mapsto> label)) m0 ls n \<noteq> None)
      = (m0 n \<noteq> None \<or> n \<in> gh_name ` set ls)" for m0
    by (induction ls arbitrary: m0) auto
  then show ?thesis by (simp add: existing_labels_of_def)
qed

lemma created_append [simp]: "created (xs @ ys) = created xs @ created ys"
  by (simp add: created_def)
lemma skipped_append [simp]: "skipped_existing (xs @ ys) = skipped_existing xs @ skipped_existing ys"
  by (simp add: skipped_existing_def)
lemma errors_append [simp]: "errors (xs @ ys) = errors xs @ errors ys"
  by (simp add: errors_def)

lemma final_summary_append [simp]:
  "final_summary (xs @ ys) = final_summary xs @ final_summary ys"
  by (simp add: final_summary_def)

lemma outcome_simps [simp]:
  "created [] = []" "created (x # xs) = created_of x @ created xs"
  "skipped_existing [] = []" "skipped_existing (x # xs) = skipped_of x @ skipped_existing xs"
  "errors [] = []" "errors (x # xs) = error_of x @ errors xs"
  "final_summary [] = []" "final_summary (x # xs) = final_summary_of x @ final_summary xs"
  by (simp_all add: created_def skipped_existing_def errors_def final_summary_def)

lemma print_simps [simp]:
  "out (print l p) = out p @ [l]" "world (print l p) = world p" "calls (print l p) = calls p"
  by (simp_all add: print_def)

text \<open>The five ways through the body of the loop.\<close>

lemma sync_label_skip:
  "ex (name l) \<noteq> None \<Longrightarrow> sync_label g r ex d l s =
     (Inr ((fst s)\<lparr>skipped_count := skipped_count (fst s) + 1\<rparr>),
      print (Label_already_exists (name l)) (snd s))"
  by (simp add: sync_label_def Let_def)

lemma sync_label_dry:
  "ex (name l) = None \<Longrightarrow> sync_label g r ex True l s =
     (Inr ((fst s)\<lparr>created_count := created_count (fst s) + 1\<rparr>),
      print (Would_create_label (name l)) (snd s))"
  by (simp add: sync_label_def Let_def)

lemma sync_label_ok:
  "ex (name l) = None \<Longrightarrow>
   api_create_label g (world (snd s)) r (name l) (color l) (description l) = Inr w' \<Longrightarrow>
   sync_label g r ex False l s =
     (Inr ((fst s)\<lparr>created_count := created_count (fst s) + 1\<rparr>),
      print (Created_label (name l))
        ((snd s)\<lparr>calls := calls (snd s) @ [create_call r l], world := w'\<rparr>))"
  by (simp add: sync_label_def Let_def create_label_def create_call_def)

lemma sync_label_fail:
  "ex (name l) = None \<Longrightarrow>
   api_create_label g (world (snd s)) r (name l) (color l) (description l) =
     Inl (GithubException e) \<Longrightarrow>
   message e = Inr m \<Longrightarrow>
   sync_label g r ex False l s =
     (Inr ((fst s)\<lparr>error_count := error_count (fst s) + 1\<rparr>),
      print (Failed_to_create_label (name l) m)
        ((snd s)\<lparr>calls := calls (snd s) @ [create_call r l]\<rparr>))"
  by (simp add: sync_label_def Let_def create_label_def create_call_def)

lemma sync_label_handler_raises:
  "ex (name l) = None \<Longrightarrow>
   api_create_label g (world (snd s)) r (name l) (color l) (description l) =
     Inl (GithubException e) \<Longrightarrow>
   message e = Inl y \<Longrightarrow>
   sync_label g r ex False l s =
     (Inl y, (snd s)\<lparr>calls := calls (snd s) @ [create_call r l]\<rparr>)"
  by (simp add: sync_label_def Let_def create_label_def create_call_def)

lemma sync_label_not_caught:
  "ex (name l) = None \<Longrightarrow>
   api_create_label g (world (snd s)) r (name l) (color l) (description l) = Inl x \<Longrightarrow>
   \<forall>e. x \<noteq> GithubException e \<Longrightarrow>
   sync_label g r ex False l s =
     (Inl x, (snd s)\<lparr>calls := calls (snd s) @ [create_call r l]\<rparr>)"
  by (cases x) (simp_all add: sync_label_def Let_def create_label_def create_call_def)

lemma sync_label_cases [case_names skip dry ok fail abort]:
  assumes "ex (name l) \<noteq> None \<Longrightarrow> P"
    and "ex (name l) = None \<Longrightarrow> d \<Longrightarrow> P"
    and "\<And>w'. ex (name l) = None \<Longrightarrow> \<not> d \<Longrightarrow>
           api_create_label g (world (snd s)) r (name l) (color l) (description l) = Inr w' \<Longrightarrow> P"
    and "\<And>e m. ex (name l) = None \<Longrightarrow> \<not> d \<Longrightarrow>
           api_create_label g (world (snd s)) r (name l) (color l) (description l) =
             Inl (GithubException e) \<Longrightarrow> message e = Inr m \<Longrightarrow> P"
    and "\<And>x y. ex (name l) = None \<Longrightarrow> \<not> d \<Longrightarrow>
           api_create_label g (world (snd s)) r (name l) (color l) (description l) = Inl x \<Longrightarrow>
           \<forall>e m. x = GithubException e \<longrightarrow> message e \<noteq> Inr m \<Longrightarrow>
           sync_label g r ex False l s =
             (Inl y, (snd s)\<lparr>calls := calls (snd s) @ [create_call r l]\<rparr>) \<Longrightarrow> P"
  shows P
proof (cases "ex (name l) = None")
  case False
  then show ?thesis by (rule assms(1))
next
  case absent: True
  show ?thesis
  proof (cases d)
    case True
    with absent show ?thesis by (rule assms(2))
  next
    case real: False
    show ?thesis
    proof (cases "api_create_label g (world (snd s)) r (name l) (color l) (description l)")
      case (Inr w')
      with absent real show ?thesis by (rule assms(3))
    next
      case (Inl x)
      show ?thesis
      proof (cases "\<exists>e. x = GithubException e")
        case False
        then have nc: "\<forall>e. x \<noteq> GithubException e"
          by simp
        then have "\<forall>e m. x = GithubException e \<longrightarrow> message e \<noteq> Inr m"
          by simp
        with absent real Inl show ?thesis
          using sync_label_not_caught [where ex=ex and l=l and s=s and g=g and r=r, OF absent Inl nc]
          by (rule assms(5))
      next
        case True
        then obtain e where e: "x = GithubException e"
          by blast
        show ?thesis
        proof (cases "message e")
          case m: (Inr m)
          from absent real Inl [unfolded e] m show ?thesis by (rule assms(4))
        next
          case y: (Inl y)
          have "\<forall>e' m. x = GithubException e' \<longrightarrow> message e' \<noteq> Inr m"
            using e y by simp
          with absent real Inl show ?thesis
            using sync_label_handler_raises [where ex=ex and l=l and s=s and g=g and r=r,
                OF absent Inl [unfolded e] y]
            by (rule assms(5))
        qed
      qed
    qed
  qed
qed

text \<open>What one turn of the loop does, when it goes on and when it raises.\<close>

lemma sync_label_returns:
  assumes "sync_label g r ex d l s = (Inr t1, p1)"
  shows "\<exists>x. out p1 = out (snd s) @ [x] \<and> final_summary_of x = []
     \<and> calls p1 = calls (snd s) @ (if d \<or> ex (name l) \<noteq> None then [] else [create_call r l])
     \<and> skipped_of x = (if ex (name l) \<noteq> None then [name l] else [])
     \<and> created_of x @ map fst (error_of x) = (if ex (name l) = None then [name l] else [])
     \<and> (d \<longrightarrow> error_of x = [])
     \<and> (error_of x \<noteq> [] \<longrightarrow> (\<exists>e. api_create_label g (world (snd s)) r (name l) (color l)
           (description l) = Inl (GithubException e)))
     \<and> created_count t1 = created_count (fst s) + length (created_of x)
     \<and> skipped_count t1 = skipped_count (fst s) + length (skipped_of x)
     \<and> error_count t1 = error_count (fst s) + length (error_of x)
     \<and> (d \<longrightarrow> world p1 = world (snd s))"
proof (cases rule: sync_label_cases [where ex=ex and l=l and d=d and g=g and s=s and r=r])
  case skip
  show ?thesis
    apply (rule exI [of _ "Label_already_exists (name l)"])
    using assms skip by (auto simp add: sync_label_skip)
next
  case dry
  show ?thesis
    apply (rule exI [of _ "Would_create_label (name l)"])
    using assms dry by (auto simp add: sync_label_dry)
next
  case (ok w')
  show ?thesis
    apply (rule exI [of _ "Created_label (name l)"])
    using assms ok by (auto simp add: sync_label_ok)
next
  case (fail e m)
  show ?thesis
    apply (rule exI [of _ "Failed_to_create_label (name l) m"])
    using assms fail by (auto simp add: sync_label_fail)
next
  case (abort x y)
  with assms show ?thesis by simp
qed

lemma sync_label_raises:
  assumes "sync_label g r ex d l s = (Inl y, p1)"
  shows "\<not> d \<and> ex (name l) = None \<and> out p1 = out (snd s)
     \<and> calls p1 = calls (snd s) @ [create_call r l] \<and> world p1 = world (snd s)
     \<and> (\<exists>x. api_create_label g (world (snd s)) r (name l) (color l) (description l) = Inl x
          \<and> (\<forall>e m. x = GithubException e \<longrightarrow> message e \<noteq> Inr m))"
proof (cases rule: sync_label_cases [where ex=ex and l=l and d=d and g=g and s=s and r=r])
  case skip
  with assms show ?thesis by (simp add: sync_label_skip)
next
  case dry
  with assms show ?thesis by (simp add: sync_label_dry)
next
  case (ok w')
  with assms show ?thesis by (simp add: sync_label_ok)
next
  case (fail e m)
  with assms show ?thesis by (simp add: sync_label_fail)
next
  case (abort x y')
  with assms show ?thesis by auto
qed

lemma sync_loop_append:
  "sync_loop g r ex d (xs @ ys) s =
     (case sync_loop g r ex d xs s of
        (Inl x, p') \<Rightarrow> (Inl x, p')
      | (Inr t', p') \<Rightarrow> sync_loop g r ex d ys (t', p'))"
  by (induction xs arbitrary: s) (simp_all split: prod.splits sum.splits)

text \<open>
  The loop over the source labels: what it has printed and requested when it stops, after
  all the labels or at the label whose creation raised.
\<close>

lemma sync_loop_run:
  "\<exists>ls k j. out (snd (sync_loop g r ex d S s)) = out (snd s) @ ls
     \<and> final_summary ls = []
     \<and> k \<le> length S
     \<and> j \<le> length S
     \<and> calls (snd (sync_loop g r ex d S s)) = calls (snd s) @
         (if d then [] else map (create_call r) (filter (\<lambda>l. ex (name l) = None) (take k S)))
     \<and> skipped_existing ls = map name (filter (\<lambda>l. ex (name l) \<noteq> None) (take j S))
     \<and> (d \<longrightarrow> errors ls = [])
     \<and> ((\<forall>w n c dd. \<exists>w'. api_create_label g w r n c dd = Inr w') \<longrightarrow> errors ls = [])
     \<and> (d \<longrightarrow> world (snd (sync_loop g r ex d S s)) = world (snd s))
     \<and> (\<forall>t'. fst (sync_loop g r ex d S s) = Inr t' \<longrightarrow>
           k = length S \<and> j = length S
         \<and> mset (created ls) + mset (map fst (errors ls)) =
             mset (map name (filter (\<lambda>l. ex (name l) = None) S))
         \<and> (errors ls = [] \<longrightarrow> created ls = map name (filter (\<lambda>l. ex (name l) = None) S))
         \<and> created_count t' = created_count (fst s) + length (created ls)
         \<and> skipped_count t' = skipped_count (fst s) + length (skipped_existing ls)
         \<and> error_count t' = error_count (fst s) + length (errors ls))
     \<and> (\<forall>y. fst (sync_loop g r ex d S s) = Inl y \<longrightarrow>
           \<not> d \<and> (\<exists>l \<in> set S. ex (name l) = None
             \<and> (\<exists>w x. api_create_label g w r (name l) (color l) (description l) = Inl x
                  \<and> (\<forall>e m. x = GithubException e \<longrightarrow> message e \<noteq> Inr m))))"
proof (induction S arbitrary: s)
  case Nil
  show ?case
    by (intro exI [of _ "[]"] exI [of _ "0::nat"]) simp
next
  case (Cons l S)
  obtain res p1 where sl: "sync_label g r ex d l s = (res, p1)"
    by (cases "sync_label g r ex d l s")
  show ?case
  proof (cases res)
    case (Inl y)
    have R: "sync_loop g r ex d (l # S) s = (Inl y, p1)"
      using sl Inl by simp
    have f: "\<not> d" "ex (name l) = None" "out p1 = out (snd s)"
        "calls p1 = calls (snd s) @ [create_call r l]" "world p1 = world (snd s)"
        "\<exists>x. api_create_label g (world (snd s)) r (name l) (color l) (description l) = Inl x
          \<and> (\<forall>e m. x = GithubException e \<longrightarrow> message e \<noteq> Inr m)"
      using sync_label_raises [OF sl [unfolded Inl]] by blast+
    have cause: "\<exists>l' \<in> set (l # S). ex (name l') = None
        \<and> (\<exists>w x. api_create_label g w r (name l') (color l') (description l') = Inl x
             \<and> (\<forall>e m. x = GithubException e \<longrightarrow> message e \<noteq> Inr m))"
      using f(2,6) by auto
    show ?thesis
      unfolding R
      apply (rule exI [of _ "[]"])
      apply (rule exI [of _ "Suc 0"])
      apply (rule exI [of _ "0::nat"])
      using f(1-5) cause by simp
  next
    case (Inr t1)
    have R: "sync_loop g r ex d (l # S) s = sync_loop g r ex d S (t1, p1)"
      using sl Inr by simp
    let ?R = "sync_loop g r ex d S (t1, p1)"
    obtain x where x: "out p1 = out (snd s) @ [x]" "final_summary_of x = []"
        "calls p1 = calls (snd s) @ (if d \<or> ex (name l) \<noteq> None then [] else [create_call r l])"
        "skipped_of x = (if ex (name l) \<noteq> None then [name l] else [])"
        "created_of x @ map fst (error_of x) = (if ex (name l) = None then [name l] else [])"
        "d \<longrightarrow> error_of x = []"
        "error_of x \<noteq> [] \<longrightarrow> (\<exists>e. api_create_label g (world (snd s)) r (name l) (color l)
           (description l) = Inl (GithubException e))"
        "created_count t1 = created_count (fst s) + length (created_of x)"
        "skipped_count t1 = skipped_count (fst s) + length (skipped_of x)"
        "error_count t1 = error_count (fst s) + length (error_of x)"
        "d \<longrightarrow> world p1 = world (snd s)"
      using sync_label_returns [OF sl [unfolded Inr]] by (elim exE conjE) (rule that)
    obtain ls k j where ih: "out (snd ?R) = out p1 @ ls"
        "final_summary ls = []" "k \<le> length S" "j \<le> length S"
        "calls (snd ?R) = calls p1 @
           (if d then [] else map (create_call r) (filter (\<lambda>l. ex (name l) = None) (take k S)))"
        "skipped_existing ls = map name (filter (\<lambda>l. ex (name l) \<noteq> None) (take j S))"
        "d \<longrightarrow> errors ls = []"
        "(\<forall>w n c dd. \<exists>w'. api_create_label g w r n c dd = Inr w') \<longrightarrow> errors ls = []"
        "d \<longrightarrow> world (snd ?R) = world p1"
        "\<forall>t'. fst ?R = Inr t' \<longrightarrow>
           k = length S \<and> j = length S
         \<and> mset (created ls) + mset (map fst (errors ls)) =
             mset (map name (filter (\<lambda>l. ex (name l) = None) S))
         \<and> (errors ls = [] \<longrightarrow> created ls = map name (filter (\<lambda>l. ex (name l) = None) S))
         \<and> created_count t' = created_count t1 + length (created ls)
         \<and> skipped_count t' = skipped_count t1 + length (skipped_existing ls)
         \<and> error_count t' = error_count t1 + length (errors ls)"
        "\<forall>y. fst ?R = Inl y \<longrightarrow>
           \<not> d \<and> (\<exists>l \<in> set S. ex (name l) = None
             \<and> (\<exists>w x. api_create_label g w r (name l) (color l) (description l) = Inl x
                  \<and> (\<forall>e m. x = GithubException e \<longrightarrow> message e \<noteq> Inr m)))"
      using Cons [of "(t1, p1)"] unfolding fst_conv snd_conv by (elim exE conjE) (rule that)
    have c1: "out (snd ?R) = out (snd s) @ x # ls"
      using ih(1) x(1) by simp
    have c2: "final_summary (x # ls) = []"
      using ih(2) x(2) by simp
    have c3: "Suc k \<le> length (l # S)" and c4: "Suc j \<le> length (l # S)"
      using ih(3,4) by simp_all
    have c5: "calls (snd ?R) = calls (snd s) @
         (if d then [] else map (create_call r)
            (filter (\<lambda>l. ex (name l) = None) (take (Suc k) (l # S))))"
      using ih(5) x(3) by simp
    have c6: "skipped_existing (x # ls) =
        map name (filter (\<lambda>l. ex (name l) \<noteq> None) (take (Suc j) (l # S)))"
      using ih(6) x(4) by simp
    have c7: "d \<longrightarrow> errors (x # ls) = []"
      using ih(7) x(6) by simp
    have c8: "(\<forall>w n c dd. \<exists>w'. api_create_label g w r n c dd = Inr w') \<longrightarrow>
        errors (x # ls) = []"
    proof
      assume H: "\<forall>w n c dd. \<exists>w'. api_create_label g w r n c dd = Inr w'"
      then obtain w' where
        "api_create_label g (world (snd s)) r (name l) (color l) (description l) = Inr w'"
        by blast
      with x(7) have "error_of x = []"
        by auto
      with ih(8) H show "errors (x # ls) = []"
        by simp
    qed
    have c9: "d \<longrightarrow> world (snd ?R) = world (snd s)"
      using ih(9) x(11) by simp
    have c10: "\<forall>t'. fst ?R = Inr t' \<longrightarrow>
           Suc k = length (l # S) \<and> Suc j = length (l # S)
         \<and> mset (created (x # ls)) + mset (map fst (errors (x # ls))) =
             mset (map name (filter (\<lambda>l. ex (name l) = None) (l # S)))
         \<and> (errors (x # ls) = [] \<longrightarrow>
              created (x # ls) = map name (filter (\<lambda>l. ex (name l) = None) (l # S)))
         \<and> created_count t' = created_count (fst s) + length (created (x # ls))
         \<and> skipped_count t' = skipped_count (fst s) + length (skipped_existing (x # ls))
         \<and> error_count t' = error_count (fst s) + length (errors (x # ls))"
    proof (intro allI impI)
      fix t'
      assume t': "fst ?R = Inr t'"
      note A = ih(10) [rule_format, OF t']
      note a1 = A [THEN conjunct1]
      note a2 = A [THEN conjunct2, THEN conjunct1]
      note a3 = A [THEN conjunct2, THEN conjunct2, THEN conjunct1]
      note a4 = A [THEN conjunct2, THEN conjunct2, THEN conjunct2, THEN conjunct1]
      note a5 = A [THEN conjunct2, THEN conjunct2, THEN conjunct2, THEN conjunct2, THEN conjunct1]
      note a6 = A [THEN conjunct2, THEN conjunct2, THEN conjunct2, THEN conjunct2, THEN conjunct2,
          THEN conjunct1]
      note a7 = A [THEN conjunct2, THEN conjunct2, THEN conjunct2, THEN conjunct2, THEN conjunct2,
          THEN conjunct2]
      have m0: "mset (created_of x) + mset (map fst (error_of x)) =
          mset (if ex (name l) = None then [name l] else [])"
        unfolding mset_append [symmetric] by (simp only: x(5))
      have m: "mset (created (x # ls)) + mset (map fst (errors (x # ls))) =
             mset (map name (filter (\<lambda>l. ex (name l) = None) (l # S)))"
      proof -
        have "mset (created (x # ls)) + mset (map fst (errors (x # ls))) =
            (mset (created_of x) + mset (map fst (error_of x)))
              + (mset (created ls) + mset (map fst (errors ls)))"
          by simp
        also have "\<dots> = mset (if ex (name l) = None then [name l] else [])
              + mset (map name (filter (\<lambda>l. ex (name l) = None) S))"
          unfolding m0 a3 ..
        also have "\<dots> = mset (map name (filter (\<lambda>l. ex (name l) = None) (l # S)))"
          by simp
        finally show ?thesis .
      qed
      have e: "errors (x # ls) = [] \<longrightarrow>
              created (x # ls) = map name (filter (\<lambda>l. ex (name l) = None) (l # S))"
      proof
        assume "errors (x # ls) = []"
        then have e1: "error_of x = []" and e2: "errors ls = []"
          by simp_all
        from x(5) e1 have "created_of x = (if ex (name l) = None then [name l] else [])"
          by simp
        moreover from a4 e2 have "created ls = map name (filter (\<lambda>l. ex (name l) = None) S)"
          by simp
        ultimately show "created (x # ls) = map name (filter (\<lambda>l. ex (name l) = None) (l # S))"
          by simp
      qed
      have n1: "Suc k = length (l # S)" and n2: "Suc j = length (l # S)"
        using a1 a2 by simp_all
      have n5: "created_count t' = created_count (fst s) + length (created (x # ls))"
        using a5 x(8) by simp
      have n6: "skipped_count t' = skipped_count (fst s) + length (skipped_existing (x # ls))"
        using a6 x(9) by simp
      have n7: "error_count t' = error_count (fst s) + length (errors (x # ls))"
        using a7 x(10) by simp
      show "Suc k = length (l # S) \<and> Suc j = length (l # S)
         \<and> mset (created (x # ls)) + mset (map fst (errors (x # ls))) =
             mset (map name (filter (\<lambda>l. ex (name l) = None) (l # S)))
         \<and> (errors (x # ls) = [] \<longrightarrow>
              created (x # ls) = map name (filter (\<lambda>l. ex (name l) = None) (l # S)))
         \<and> created_count t' = created_count (fst s) + length (created (x # ls))
         \<and> skipped_count t' = skipped_count (fst s) + length (skipped_existing (x # ls))
         \<and> error_count t' = error_count (fst s) + length (errors (x # ls))"
        using n1 n2 m e n5 n6 n7 by (intro conjI)
    qed
    have c11: "\<forall>y. fst ?R = Inl y \<longrightarrow>
           \<not> d \<and> (\<exists>l' \<in> set (l # S). ex (name l') = None
             \<and> (\<exists>w x. api_create_label g w r (name l') (color l') (description l') = Inl x
                  \<and> (\<forall>e m. x = GithubException e \<longrightarrow> message e \<noteq> Inr m)))"
      using ih(11) by auto
    show ?thesis
      unfolding R
      apply (rule exI [of _ "x # ls"])
      apply (rule exI [of _ "Suc k"])
      apply (rule exI [of _ "Suc j"])
      by (intro conjI c1 c2 c3 c4 c5 c6 c7 c8 c9 c10 c11)
  qed
qed

subsection \<open>One call of \<^verbatim>\<open>sync_labels_to_repo\<close>\<close>

lemma new_lines_append: "out p' = out p @ ls \<Longrightarrow> new_lines p p' = ls"
  by (simp add: new_lines_def)

lemma new_calls_append: "calls p' = calls p @ cs \<Longrightarrow> new_calls p p' = cs"
  by (simp add: new_calls_def)

lemma sync_labels_to_repo_failed:
  assumes "api_get_labels g (world p) r = Inl e"
  shows "sync_labels_to_repo g S r d p =
     (Inl e, p\<lparr>out := out p @ [Syncing_labels_to (full_name r)],
               calls := calls p @ [Get_labels (full_name r)]\<rparr>)"
  using assms by (simp add: sync_labels_to_repo_def repo_get_labels_def print_def)

lemma sync_labels_to_repo_loop:
  assumes "api_get_labels g (world p) r = Inr T"
  shows "sync_labels_to_repo g S r d p =
     (case sync_loop g r (existing_labels_of T) d S
             (\<lparr>created_count = 0, skipped_count = 0, error_count = 0\<rparr>,
              (print (Syncing_labels_to (full_name r)) p)
                \<lparr>calls := calls p @ [Get_labels (full_name r)]\<rparr>) of
        (Inl x, p'') \<Rightarrow> (Inl x, p'')
      | (Inr t, p'') \<Rightarrow> (Inr (created_count t, skipped_count t, error_count t),
           print (Summary_for (full_name r) (created_count t) (skipped_count t)
             (error_count t)) p''))"
  using assms by (simp add: sync_labels_to_repo_def repo_get_labels_def)

lemma outcome_frame:
  "created (Syncing_labels_to x # ls @ [Summary_for y a b c]) = created ls"
  "skipped_existing (Syncing_labels_to x # ls @ [Summary_for y a b c]) = skipped_existing ls"
  "errors (Syncing_labels_to x # ls @ [Summary_for y a b c]) = errors ls"
  "final_summary (Syncing_labels_to x # ls @ [Summary_for y a b c]) = final_summary ls"
  "created (Syncing_labels_to x # ls) = created ls"
  "skipped_existing (Syncing_labels_to x # ls) = skipped_existing ls"
  "errors (Syncing_labels_to x # ls) = errors ls"
  "final_summary (Syncing_labels_to x # ls) = final_summary ls"
  by simp_all

text \<open>
  A call that has listed the labels \<open>T\<close> of the target: what it has printed and requested,
  whether it returns its counters or is left by an exception of a create call.
\<close>

lemma sync_labels_to_repo_fetched:
  assumes "api_get_labels g (world p) r = Inr T"
  shows "\<exists>res p' ls k j. sync_labels_to_repo g S r d p = (res, p')
     \<and> out p' = out p @ ls
     \<and> final_summary ls = []
     \<and> k \<le> length S
     \<and> j \<le> length S
     \<and> calls p' = calls p @ Get_labels (full_name r) #
          (if d then [] else map (create_call r)
             (filter (\<lambda>l. name l \<notin> gh_name ` set T) (take k S)))
     \<and> skipped_existing ls = map name (filter (\<lambda>l. name l \<in> gh_name ` set T) (take j S))
     \<and> (d \<longrightarrow> errors ls = [])
     \<and> ((\<forall>w n c dd. \<exists>w'. api_create_label g w r n c dd = Inr w') \<longrightarrow> errors ls = [])
     \<and> (d \<longrightarrow> world p' = world p)
     \<and> (\<forall>t. res = Inr t \<longrightarrow>
           k = length S \<and> j = length S
         \<and> t = (length (created ls), length (skipped_existing ls), length (errors ls))
         \<and> mset (created ls) + mset (map fst (errors ls)) =
             mset (map name (filter (\<lambda>l. name l \<notin> gh_name ` set T) S))
         \<and> (errors ls = [] \<longrightarrow>
              created ls = map name (filter (\<lambda>l. name l \<notin> gh_name ` set T) S)))
     \<and> (\<forall>y. res = Inl y \<longrightarrow>
           \<not> d \<and> (\<exists>l \<in> set S. name l \<notin> gh_name ` set T
             \<and> (\<exists>w x. api_create_label g w r (name l) (color l) (description l) = Inl x
                  \<and> (\<forall>e m. x = GithubException e \<longrightarrow> message e \<noteq> Inr m))))"
proof -
  define ex where "ex = existing_labels_of T"
  define s0 where "s0 = (\<lparr>created_count = 0, skipped_count = 0, error_count = 0\<rparr>,
    (print (Syncing_labels_to (full_name r)) p)\<lparr>calls := calls p @ [Get_labels (full_name r)]\<rparr>)"
  have present: "(\<lambda>l. ex (name l) \<noteq> None) = (\<lambda>l. name l \<in> gh_name ` set T)"
    unfolding ex_def by (rule ext) (rule existing_labels_of_dom)
  have absent: "(\<lambda>l. ex (name l) = None) = (\<lambda>l. name l \<notin> gh_name ` set T)"
  proof (rule ext)
    fix l
    show "(ex (name l) = None) = (name l \<notin> gh_name ` set T)"
      unfolding ex_def using existing_labels_of_dom [of T "name l"] by blast
  qed
  have absent1: "(ex (name l) = None) = (name l \<notin> gh_name ` set T)" for l
    unfolding ex_def using existing_labels_of_dom [of T "name l"] by blast
  have s0: "out (snd s0) = out p @ [Syncing_labels_to (full_name r)]"
    "calls (snd s0) = calls p @ [Get_labels (full_name r)]" "world (snd s0) = world p"
    "created_count (fst s0) = 0" "skipped_count (fst s0) = 0" "error_count (fst s0) = 0"
    by (simp_all add: s0_def)
  obtain res q where R: "sync_loop g r ex d S s0 = (res, q)"
    by (cases "sync_loop g r ex d S s0")
  obtain ls k j where L1: "out q = out (snd s0) @ ls"
    and L2: "final_summary ls = []"
    and L3: "k \<le> length S"
    and L4: "j \<le> length S"
    and L5: "calls q = calls (snd s0) @
         (if d then [] else map (create_call r) (filter (\<lambda>l. ex (name l) = None) (take k S)))"
    and L6: "skipped_existing ls = map name (filter (\<lambda>l. ex (name l) \<noteq> None) (take j S))"
    and L7: "d \<longrightarrow> errors ls = []"
    and L8: "(\<forall>w n c dd. \<exists>w'. api_create_label g w r n c dd = Inr w') \<longrightarrow> errors ls = []"
    and L9: "d \<longrightarrow> world q = world (snd s0)"
    and L10: "\<forall>t'. res = Inr t' \<longrightarrow>
           k = length S \<and> j = length S
         \<and> mset (created ls) + mset (map fst (errors ls)) =
             mset (map name (filter (\<lambda>l. ex (name l) = None) S))
         \<and> (errors ls = [] \<longrightarrow> created ls = map name (filter (\<lambda>l. ex (name l) = None) S))
         \<and> created_count t' = created_count (fst s0) + length (created ls)
         \<and> skipped_count t' = skipped_count (fst s0) + length (skipped_existing ls)
         \<and> error_count t' = error_count (fst s0) + length (errors ls)"
    and L11: "\<forall>y. res = Inl y \<longrightarrow>
           \<not> d \<and> (\<exists>l \<in> set S. ex (name l) = None
             \<and> (\<exists>w x. api_create_label g w r (name l) (color l) (description l) = Inl x
                  \<and> (\<forall>e m. x = GithubException e \<longrightarrow> message e \<noteq> Inr m)))"
    using sync_loop_run [of g r ex d S s0] unfolding R fst_conv snd_conv
    by (elim exE conjE) (rule that)
  have loop: "sync_labels_to_repo g S r d p =
     (case (res, q) of
        (Inl x, p'') \<Rightarrow> (Inl x, p'')
      | (Inr t, p'') \<Rightarrow> (Inr (created_count t, skipped_count t, error_count t),
           print (Summary_for (full_name r) (created_count t) (skipped_count t)
             (error_count t)) p''))"
    unfolding R [symmetric] s0_def ex_def using assms by (rule sync_labels_to_repo_loop)
  have calls5: "calls q = calls p @ Get_labels (full_name r) #
          (if d then [] else map (create_call r)
             (filter (\<lambda>l. name l \<notin> gh_name ` set T) (take k S)))"
    using L5 unfolding absent s0(2) by simp
  have skip6: "skipped_existing ls = map name (filter (\<lambda>l. name l \<in> gh_name ` set T) (take j S))"
    using L6 unfolding present .
  have world9: "d \<longrightarrow> world q = world p"
    using L9 unfolding s0(3) .
  show ?thesis
  proof (cases res)
    case (Inl y)
    define ls' where "ls' = Syncing_labels_to (full_name r) # ls"
    have fr: "created ls' = created ls" "skipped_existing ls' = skipped_existing ls"
      "errors ls' = errors ls" "final_summary ls' = final_summary ls"
      unfolding ls'_def by (rule outcome_frame)+
    have 1: "sync_labels_to_repo g S r d p = (Inl y, q)"
      unfolding loop Inl by simp
    have 2: "out q = out p @ ls'"
      unfolding ls'_def using L1 s0(1) by simp
    have 3: "final_summary ls' = []"
      unfolding fr by (rule L2)
    have 7: "skipped_existing ls' =
        map name (filter (\<lambda>l. name l \<in> gh_name ` set T) (take j S))"
      unfolding fr by (rule skip6)
    have 8: "d \<longrightarrow> errors ls' = []"
      unfolding fr by (rule L7)
    have 9: "(\<forall>w n c dd. \<exists>w'. api_create_label g w r n c dd = Inr w') \<longrightarrow> errors ls' = []"
      unfolding fr by (rule L8)
    have 11: "\<forall>t. Inl y = Inr t \<longrightarrow>
           k = length S \<and> j = length S
         \<and> t = (length (created ls'), length (skipped_existing ls'), length (errors ls'))
         \<and> mset (created ls') + mset (map fst (errors ls')) =
             mset (map name (filter (\<lambda>l. name l \<notin> gh_name ` set T) S))
         \<and> (errors ls' = [] \<longrightarrow>
              created ls' = map name (filter (\<lambda>l. name l \<notin> gh_name ` set T) S))"
      by simp
    have 12: "\<forall>y'. Inl y = Inl y' \<longrightarrow>
           \<not> d \<and> (\<exists>l \<in> set S. name l \<notin> gh_name ` set T
             \<and> (\<exists>w x. api_create_label g w r (name l) (color l) (description l) = Inl x
                  \<and> (\<forall>e m. x = GithubException e \<longrightarrow> message e \<noteq> Inr m)))"
      using L11 unfolding Inl absent1 by simp
    show ?thesis
      apply (rule exI [of _ "Inl y"])
      apply (rule exI [of _ q])
      apply (rule exI [of _ ls'])
      apply (rule exI [of _ k])
      apply (rule exI [of _ j])
      apply (intro conjI)
                 apply (fact 1)
                apply (fact 2)
               apply (fact 3)
              apply (fact L3)
             apply (fact L4)
            apply (fact calls5)
           apply (fact 7)
          apply (fact 8)
         apply (fact 9)
        apply (fact world9)
       apply (fact 11)
      apply (fact 12)
      done
  next
    case (Inr t')
    define sm where "sm = Summary_for (full_name r) (created_count t') (skipped_count t')
      (error_count t')"
    define ls' where "ls' = Syncing_labels_to (full_name r) # ls @ [sm]"
    define p' where "p' = print sm q"
    have fr: "created ls' = created ls" "skipped_existing ls' = skipped_existing ls"
      "errors ls' = errors ls" "final_summary ls' = final_summary ls"
      unfolding ls'_def sm_def by (rule outcome_frame)+
    note A = L10 [rule_format, OF Inr]
    note a1 = A [THEN conjunct1]
    note a2 = A [THEN conjunct2, THEN conjunct1]
    note a3 = A [THEN conjunct2, THEN conjunct2, THEN conjunct1]
    note a4 = A [THEN conjunct2, THEN conjunct2, THEN conjunct2, THEN conjunct1]
    note a5 = A [THEN conjunct2, THEN conjunct2, THEN conjunct2, THEN conjunct2, THEN conjunct1]
    note a6 = A [THEN conjunct2, THEN conjunct2, THEN conjunct2, THEN conjunct2, THEN conjunct2,
        THEN conjunct1]
    note a7 = A [THEN conjunct2, THEN conjunct2, THEN conjunct2, THEN conjunct2, THEN conjunct2,
        THEN conjunct2]
    have cnt: "(created_count t', skipped_count t', error_count t') =
        (length (created ls'), length (skipped_existing ls'), length (errors ls'))"
      unfolding fr using a5 a6 a7 s0(4-6) by simp
    have 1: "sync_labels_to_repo g S r d p =
        (Inr (created_count t', skipped_count t', error_count t'), p')"
      unfolding loop Inr p'_def sm_def by simp
    have 2: "out p' = out p @ ls'"
      unfolding p'_def ls'_def using L1 s0(1) by simp
    have 3: "final_summary ls' = []"
      unfolding fr by (rule L2)
    have 6: "calls p' = calls p @ Get_labels (full_name r) #
          (if d then [] else map (create_call r)
             (filter (\<lambda>l. name l \<notin> gh_name ` set T) (take k S)))"
      unfolding p'_def using calls5 by simp
    have 7: "skipped_existing ls' =
        map name (filter (\<lambda>l. name l \<in> gh_name ` set T) (take j S))"
      unfolding fr by (rule skip6)
    have 8: "d \<longrightarrow> errors ls' = []"
      unfolding fr by (rule L7)
    have 9: "(\<forall>w n c dd. \<exists>w'. api_create_label g w r n c dd = Inr w') \<longrightarrow> errors ls' = []"
      unfolding fr by (rule L8)
    have 10: "d \<longrightarrow> world p' = world p"
      unfolding p'_def using world9 by simp
    have m: "mset (created ls') + mset (map fst (errors ls')) =
             mset (map name (filter (\<lambda>l. name l \<notin> gh_name ` set T) S))"
      unfolding fr using a3 unfolding absent .
    have e: "errors ls' = [] \<longrightarrow>
              created ls' = map name (filter (\<lambda>l. name l \<notin> gh_name ` set T) S)"
      unfolding fr using a4 unfolding absent .
    have 11: "\<forall>t. (Inr (created_count t', skipped_count t', error_count t')
            :: py_exception + nat \<times> nat \<times> nat) = Inr t \<longrightarrow>
           k = length S \<and> j = length S
         \<and> t = (length (created ls'), length (skipped_existing ls'), length (errors ls'))
         \<and> mset (created ls') + mset (map fst (errors ls')) =
             mset (map name (filter (\<lambda>l. name l \<notin> gh_name ` set T) S))
         \<and> (errors ls' = [] \<longrightarrow>
              created ls' = map name (filter (\<lambda>l. name l \<notin> gh_name ` set T) S))"
    proof (intro allI impI)
      fix t
      assume "(Inr (created_count t', skipped_count t', error_count t')
            :: py_exception + nat \<times> nat \<times> nat) = Inr t"
      then have t: "t = (length (created ls'), length (skipped_existing ls'),
          length (errors ls'))"
        using cnt by simp
      from a1 a2 t m e show "k = length S \<and> j = length S
         \<and> t = (length (created ls'), length (skipped_existing ls'), length (errors ls'))
         \<and> mset (created ls') + mset (map fst (errors ls')) =
             mset (map name (filter (\<lambda>l. name l \<notin> gh_name ` set T) S))
         \<and> (errors ls' = [] \<longrightarrow>
              created ls' = map name (filter (\<lambda>l. name l \<notin> gh_name ` set T) S))"
        by (intro conjI)
    qed
    have 12: "\<forall>y. Inr (created_count t', skipped_count t', error_count t') =
          (Inl y :: py_exception + nat \<times> nat \<times> nat) \<longrightarrow>
           \<not> d \<and> (\<exists>l \<in> set S. name l \<notin> gh_name ` set T
             \<and> (\<exists>w x. api_create_label g w r (name l) (color l) (description l) = Inl x
                  \<and> (\<forall>e m. x = GithubException e \<longrightarrow> message e \<noteq> Inr m)))"
      by simp
    show ?thesis
      apply (rule exI [of _ "Inr (created_count t', skipped_count t', error_count t')"])
      apply (rule exI [of _ p'])
      apply (rule exI [of _ ls'])
      apply (rule exI [of _ k])
      apply (rule exI [of _ j])
      apply (intro conjI)
                 apply (fact 1)
                apply (fact 2)
               apply (fact 3)
              apply (fact L3)
             apply (fact L4)
            apply (fact 6)
           apply (fact 7)
          apply (fact 8)
         apply (fact 9)
        apply (fact 10)
       apply (fact 11)
      apply (fact 12)
      done
  qed
qed

text \<open>
  The call returns its counters when no create call can leave the loop: in a dry run, when
  every source label is in the target, and when every failure of a create call is a
  \<^verbatim>\<open>GithubException\<close> whose data holds a message.
\<close>

lemma sync_labels_to_repo_returns:
  assumes "api_get_labels g (world p) r = Inr T"
    and "d \<or> (\<forall>l \<in> set S. name l \<in> gh_name ` set T)
       \<or> (\<forall>w n c dd x. api_create_label g w r n c dd = Inl x \<longrightarrow>
            (\<exists>e m. x = GithubException e \<and> message e = Inr m))"
  shows "\<exists>p' ls. sync_labels_to_repo g S r d p =
       (Inr (length (created ls), length (skipped_existing ls), length (errors ls)), p')
     \<and> out p' = out p @ ls
     \<and> skipped_existing ls = map name (filter (\<lambda>l. name l \<in> gh_name ` set T) S)
     \<and> mset (created ls) + mset (map fst (errors ls)) =
         mset (map name (filter (\<lambda>l. name l \<notin> gh_name ` set T) S))
     \<and> (errors ls = [] \<longrightarrow> created ls = map name (filter (\<lambda>l. name l \<notin> gh_name ` set T) S))
     \<and> (d \<longrightarrow> errors ls = [])
     \<and> final_summary ls = []
     \<and> calls p' = calls p @ Get_labels (full_name r) #
          (if d then [] else map (create_call r) (filter (\<lambda>l. name l \<notin> gh_name ` set T) S))
     \<and> (d \<longrightarrow> world p' = world p)
     \<and> ((\<forall>w n c d. \<exists>w'. api_create_label g w r n c d = Inr w') \<longrightarrow> errors ls = [])"
proof -
  obtain res p' ls k j where F1: "sync_labels_to_repo g S r d p = (res, p')"
    and F2: "out p' = out p @ ls"
    and F3: "final_summary ls = []"
    and F6: "calls p' = calls p @ Get_labels (full_name r) #
          (if d then [] else map (create_call r)
             (filter (\<lambda>l. name l \<notin> gh_name ` set T) (take k S)))"
    and F7: "skipped_existing ls = map name (filter (\<lambda>l. name l \<in> gh_name ` set T) (take j S))"
    and F8: "d \<longrightarrow> errors ls = []"
    and F9: "(\<forall>w n c dd. \<exists>w'. api_create_label g w r n c dd = Inr w') \<longrightarrow> errors ls = []"
    and F10: "d \<longrightarrow> world p' = world p"
    and F11: "\<forall>t. res = Inr t \<longrightarrow>
           k = length S \<and> j = length S
         \<and> t = (length (created ls), length (skipped_existing ls), length (errors ls))
         \<and> mset (created ls) + mset (map fst (errors ls)) =
             mset (map name (filter (\<lambda>l. name l \<notin> gh_name ` set T) S))
         \<and> (errors ls = [] \<longrightarrow>
              created ls = map name (filter (\<lambda>l. name l \<notin> gh_name ` set T) S))"
    and F12: "\<forall>y. res = Inl y \<longrightarrow>
           \<not> d \<and> (\<exists>l \<in> set S. name l \<notin> gh_name ` set T
             \<and> (\<exists>w x. api_create_label g w r (name l) (color l) (description l) = Inl x
                  \<and> (\<forall>e m. x = GithubException e \<longrightarrow> message e \<noteq> Inr m)))"
    using sync_labels_to_repo_fetched [OF assms(1), of S d] by (elim exE conjE) (rule that)
  have "\<exists>t. res = Inr t"
  proof (cases res)
    case (Inr t)
    then show ?thesis ..
  next
    case (Inl y)
    from F12 [rule_format, OF Inl] obtain l w x where nd: "\<not> d"
      and l: "l \<in> set S" "name l \<notin> gh_name ` set T"
      and x: "api_create_label g w r (name l) (color l) (description l) = Inl x"
      and bad: "\<forall>e m. x = GithubException e \<longrightarrow> message e \<noteq> Inr m"
      by (elim conjE bexE exE) (rule that)
    from assms(2) nd l have "\<forall>w n c dd x. api_create_label g w r n c dd = Inl x \<longrightarrow>
            (\<exists>e m. x = GithubException e \<and> message e = Inr m)"
      by blast
    with x have "\<exists>e m. x = GithubException e \<and> message e = Inr m"
      by blast
    with bad show ?thesis
      by blast
  qed
  then obtain t where t: "res = Inr t"
    by blast
  note A = F11 [rule_format, OF t]
  note a1 = A [THEN conjunct1]
  note a2 = A [THEN conjunct2, THEN conjunct1]
  note a3 = A [THEN conjunct2, THEN conjunct2, THEN conjunct1]
  note a4 = A [THEN conjunct2, THEN conjunct2, THEN conjunct2, THEN conjunct1]
  note a5 = A [THEN conjunct2, THEN conjunct2, THEN conjunct2, THEN conjunct2]
  have 1: "sync_labels_to_repo g S r d p =
       (Inr (length (created ls), length (skipped_existing ls), length (errors ls)), p')"
    unfolding F1 t a3 ..
  have 3: "skipped_existing ls = map name (filter (\<lambda>l. name l \<in> gh_name ` set T) S)"
    using F7 unfolding a2 by simp
  have 8: "calls p' = calls p @ Get_labels (full_name r) #
          (if d then [] else map (create_call r) (filter (\<lambda>l. name l \<notin> gh_name ` set T) S))"
    using F6 unfolding a1 by simp
  show ?thesis
    apply (rule exI [of _ p'])
    apply (rule exI [of _ ls])
    apply (intro conjI)
             apply (fact 1)
            apply (fact F2)
           apply (fact 3)
          apply (fact a4)
         apply (fact a5)
        apply (fact F8)
       apply (fact F3)
      apply (fact 8)
     apply (fact F10)
    apply (fact F9)
    done
qed

lemma mset_filter_split:
  "mset (map f (filter (\<lambda>l. \<not> P l) S)) + mset (map f (filter P S)) = mset (map f S)"
  by (induction S) simp_all

lemma succeeding_never_raises:
  assumes "\<forall>w n c d. \<exists>w'. api_create_label g w r n c d = Inr w'"
  shows "\<forall>w n c dd x. api_create_label g w r n c dd = Inl x \<longrightarrow>
    (\<exists>e m. x = GithubException e \<and> message e = Inr m)"
proof (intro allI impI)
  fix w n c dd x
  assume a: "api_create_label g w r n c dd = Inl x"
  from assms obtain w' where "api_create_label g w r n c dd = Inr w'"
    by blast
  with a show "\<exists>e m. x = GithubException e \<and> message e = Inr m"
    by simp
qed

subsection \<open>Claims about \<^verbatim>\<open>sync_labels_to_repo\<close>\<close>

text \<open>
  C1. For every list of source labels \<open>S\<close> and every target whose labels \<open>T\<close> are fetched
  and are, by name, among those of \<open>S\<close>: a real run (\<^verbatim>\<open>dry_run\<close> false) in which every
  create call succeeds returns the counters of \<open>S - T\<close>, of \<open>T\<close> and 0; the names it
  reports as created are those of \<open>S\<close> that are not in \<open>T\<close>, in the order of the source;
  the names it reports as skipped are those of \<open>T\<close>; and it reports no error.
\<close>

theorem reconcile_subset_target:
  assumes "api_get_labels g (world p) target_repo = Inr T"
    and "gh_name ` set T \<subseteq> name ` set source_labels"
    and "\<forall>w n c d. \<exists>w'. api_create_label g w target_repo n c d = Inr w'"
  shows "\<exists>p'. sync_labels_to_repo g source_labels target_repo False p =
        (Inr (length (filter (\<lambda>l. name l \<notin> gh_name ` set T) source_labels),
              length (filter (\<lambda>l. name l \<in> gh_name ` set T) source_labels), 0), p')
      \<and> created (new_lines p p') =
          map name (filter (\<lambda>l. name l \<notin> gh_name ` set T) source_labels)
      \<and> skipped_existing (new_lines p p') =
          map name (filter (\<lambda>l. name l \<in> gh_name ` set T) source_labels)
      \<and> set (created (new_lines p p')) = name ` set source_labels - gh_name ` set T
      \<and> set (skipped_existing (new_lines p p')) = gh_name ` set T
      \<and> errors (new_lines p p') = []"
proof -
  obtain p' ls where r:
    "sync_labels_to_repo g source_labels target_repo False p =
       (Inr (length (created ls), length (skipped_existing ls), length (errors ls)), p')"
    "out p' = out p @ ls"
    "skipped_existing ls = map name (filter (\<lambda>l. name l \<in> gh_name ` set T) source_labels)"
    "errors ls = [] \<longrightarrow>
       created ls = map name (filter (\<lambda>l. name l \<notin> gh_name ` set T) source_labels)"
    "(\<forall>w n c d. \<exists>w'. api_create_label g w target_repo n c d = Inr w') \<longrightarrow> errors ls = []"
    using sync_labels_to_repo_returns [OF assms(1)
        disjI2 [OF disjI2 [OF succeeding_never_raises [OF assms(3)]]],
        where S=source_labels and d=False] by (elim exE conjE) (rule that)
  have nl: "new_lines p p' = ls"
    using r(2) by (rule new_lines_append)
  have e: "errors ls = []"
    using r(5) assms(3) by blast
  have c: "created ls = map name (filter (\<lambda>l. name l \<notin> gh_name ` set T) source_labels)"
    using r(4) e by blast
  have sc: "set (created ls) = name ` set source_labels - gh_name ` set T"
    unfolding c by auto
  have ss: "set (skipped_existing ls) = gh_name ` set T"
  proof
    show "set (skipped_existing ls) \<subseteq> gh_name ` set T"
      unfolding r(3) by auto
    show "gh_name ` set T \<subseteq> set (skipped_existing ls)"
    proof
      fix n
      assume n: "n \<in> gh_name ` set T"
      with assms(2) obtain l where l: "l \<in> set source_labels" "name l = n"
        by auto
      with n show "n \<in> set (skipped_existing ls)"
        unfolding r(3) by force
    qed
  qed
  have "sync_labels_to_repo g source_labels target_repo False p =
        (Inr (length (filter (\<lambda>l. name l \<notin> gh_name ` set T) source_labels),
              length (filter (\<lambda>l. name l \<in> gh_name ` set T) source_labels), 0), p')"
    unfolding r(1) using e c r(3) by simp
  then show ?thesis
    using nl c r(3) sc ss e by (intro exI [of _ p']) simp
qed

text \<open>
  C2, amended. Whenever the labels of the target are fetched and the function returns its
  three counters, their sum is the number of source labels: each counter is the number of
  names reported under its category, and the names reported under the three categories
  are, counted with repetition, exactly the names of the source labels, so every source
  label is counted once. The function does return its counters in a dry run, and in a real
  run when every failure of a create call is a \<^verbatim>\<open>GithubException\<close> whose data holds a
  message.
\<close>

theorem tallies_sum_to_source:
  assumes "api_get_labels g (world p) target_repo = Inr T"
  shows "(\<forall>c s e p'. sync_labels_to_repo g source_labels target_repo dry_run p =
            (Inr (c, s, e), p') \<longrightarrow>
          c + s + e = length source_labels
        \<and> c = length (created (new_lines p p'))
        \<and> s = length (skipped_existing (new_lines p p'))
        \<and> e = length (errors (new_lines p p'))
        \<and> mset (created (new_lines p p')) + mset (skipped_existing (new_lines p p'))
            + mset (map fst (errors (new_lines p p'))) = mset (map name source_labels))
      \<and> (dry_run \<or> (\<forall>w n c d x. api_create_label g w target_repo n c d = Inl x \<longrightarrow>
              (\<exists>e m. x = GithubException e \<and> message e = Inr m)) \<longrightarrow>
           (\<exists>c s e p'. sync_labels_to_repo g source_labels target_repo dry_run p =
              (Inr (c, s, e), p')))"
proof (rule conjI)
  show "\<forall>c s e p'. sync_labels_to_repo g source_labels target_repo dry_run p =
            (Inr (c, s, e), p') \<longrightarrow>
          c + s + e = length source_labels
        \<and> c = length (created (new_lines p p'))
        \<and> s = length (skipped_existing (new_lines p p'))
        \<and> e = length (errors (new_lines p p'))
        \<and> mset (created (new_lines p p')) + mset (skipped_existing (new_lines p p'))
            + mset (map fst (errors (new_lines p p'))) = mset (map name source_labels)"
  proof (intro allI impI)
    fix c s e p'
    assume ret: "sync_labels_to_repo g source_labels target_repo dry_run p =
      (Inr (c, s, e), p')"
    obtain res q ls k j where F1: "sync_labels_to_repo g source_labels target_repo dry_run p =
        (res, q)"
      and F2: "out q = out p @ ls"
      and F7: "skipped_existing ls =
        map name (filter (\<lambda>l. name l \<in> gh_name ` set T) (take j source_labels))"
      and F11: "\<forall>t. res = Inr t \<longrightarrow>
           k = length source_labels \<and> j = length source_labels
         \<and> t = (length (created ls), length (skipped_existing ls), length (errors ls))
         \<and> mset (created ls) + mset (map fst (errors ls)) =
             mset (map name (filter (\<lambda>l. name l \<notin> gh_name ` set T) source_labels))
         \<and> (errors ls = [] \<longrightarrow>
              created ls = map name (filter (\<lambda>l. name l \<notin> gh_name ` set T) source_labels))"
      using sync_labels_to_repo_fetched [OF assms, where S=source_labels and d=dry_run]
      by (elim exE conjE) (rule that)
    have res: "res = Inr (c, s, e)" and q: "q = p'"
      using F1 ret by simp_all
    note A = F11 [rule_format, OF res]
    note a2 = A [THEN conjunct2, THEN conjunct1]
    note a3 = A [THEN conjunct2, THEN conjunct2, THEN conjunct1]
    note a4 = A [THEN conjunct2, THEN conjunct2, THEN conjunct2, THEN conjunct1]
    have nl: "new_lines p p' = ls"
      using F2 unfolding q by (rule new_lines_append)
    have sk: "skipped_existing ls =
        map name (filter (\<lambda>l. name l \<in> gh_name ` set T) source_labels)"
      using F7 unfolding a2 by simp
    have m: "mset (created ls) + mset (skipped_existing ls) + mset (map fst (errors ls)) =
        mset (map name source_labels)"
    proof -
      have "mset (created ls) + mset (skipped_existing ls) + mset (map fst (errors ls)) =
          (mset (created ls) + mset (map fst (errors ls))) + mset (skipped_existing ls)"
        by simp
      also have "\<dots> = mset (map name source_labels)"
        unfolding sk a4 by (rule mset_filter_split)
      finally show ?thesis .
    qed
    have "size (mset (created ls) + mset (skipped_existing ls) + mset (map fst (errors ls))) =
        size (mset (map name source_labels))"
      using m by simp
    then have len: "length (created ls) + length (skipped_existing ls) + length (errors ls) =
        length source_labels"
      by simp
    have c: "c = length (created ls)" and s: "s = length (skipped_existing ls)"
      and e: "e = length (errors ls)"
      using a3 by simp_all
    show "c + s + e = length source_labels
        \<and> c = length (created (new_lines p p'))
        \<and> s = length (skipped_existing (new_lines p p'))
        \<and> e = length (errors (new_lines p p'))
        \<and> mset (created (new_lines p p')) + mset (skipped_existing (new_lines p p'))
            + mset (map fst (errors (new_lines p p'))) = mset (map name source_labels)"
      unfolding nl c s e using len m by (intro conjI) simp_all
  qed
next
  show "dry_run \<or> (\<forall>w n c d x. api_create_label g w target_repo n c d = Inl x \<longrightarrow>
              (\<exists>e m. x = GithubException e \<and> message e = Inr m)) \<longrightarrow>
           (\<exists>c s e p'. sync_labels_to_repo g source_labels target_repo dry_run p =
              (Inr (c, s, e), p'))"
  proof
    assume "dry_run \<or> (\<forall>w n c d x. api_create_label g w target_repo n c d = Inl x \<longrightarrow>
              (\<exists>e m. x = GithubException e \<and> message e = Inr m))"
    then have na: "dry_run \<or> (\<forall>l \<in> set source_labels. name l \<in> gh_name ` set T)
       \<or> (\<forall>w n c dd x. api_create_label g w target_repo n c dd = Inl x \<longrightarrow>
            (\<exists>e m. x = GithubException e \<and> message e = Inr m))"
      by blast
    obtain p' ls where "sync_labels_to_repo g source_labels target_repo dry_run p =
       (Inr (length (created ls), length (skipped_existing ls), length (errors ls)), p')"
      using sync_labels_to_repo_returns [OF assms na] by (elim exE conjE) (rule that)
    then show "\<exists>c s e p'. sync_labels_to_repo g source_labels target_repo dry_run p =
              (Inr (c, s, e), p')"
      by blast
  qed
qed

text \<open>
  C3, amended to the function. The flag is the parameter \<^verbatim>\<open>dry_run\<close> of
  \<^verbatim>\<open>sync_labels_to_repo\<close>; \<^verbatim>\<open>main\<close> never passes it, so a run of the script has no dry
  mode. With \<^verbatim>\<open>dry_run\<close> set, for any source labels and any target, the function sends
  one request, the listing of the target's labels, and no create request; the remote
  service is left in the state it was in, so a later listing of the target returns what it
  returned before. When the listing succeeds, every source label absent from the target is
  reported under created, every other one under skipped, none under errors, and the
  counters and both lists are those of a real run in which every create call succeeds.
\<close>

theorem dry_run_issues_no_create:
  "\<exists>res p'. sync_labels_to_repo g source_labels target_repo True p = (res, p')
     \<and> new_calls p p' = [Get_labels (full_name target_repo)]
     \<and> world p' = world p
     \<and> api_get_labels g (world p') target_repo = api_get_labels g (world p) target_repo
     \<and> (\<forall>T. api_get_labels g (world p) target_repo = Inr T \<longrightarrow>
          res = Inr (length (filter (\<lambda>l. name l \<notin> gh_name ` set T) source_labels),
                     length (filter (\<lambda>l. name l \<in> gh_name ` set T) source_labels), 0)
        \<and> created (new_lines p p') =
            map name (filter (\<lambda>l. name l \<notin> gh_name ` set T) source_labels)
        \<and> skipped_existing (new_lines p p') =
            map name (filter (\<lambda>l. name l \<in> gh_name ` set T) source_labels)
        \<and> errors (new_lines p p') = []
        \<and> ((\<forall>w n c d. \<exists>w'. api_create_label g w target_repo n c d = Inr w') \<longrightarrow>
             fst (sync_labels_to_repo g source_labels target_repo False p) = res
           \<and> created (new_lines p (snd (sync_labels_to_repo g source_labels target_repo
                 False p))) = created (new_lines p p')
           \<and> skipped_existing (new_lines p (snd (sync_labels_to_repo g source_labels
                 target_repo False p))) = skipped_existing (new_lines p p')))"
proof (cases "api_get_labels g (world p) target_repo")
  case (Inl e)
  let ?p' = "p\<lparr>out := out p @ [Syncing_labels_to (full_name target_repo)],
               calls := calls p @ [Get_labels (full_name target_repo)]\<rparr>"
  have 1: "sync_labels_to_repo g source_labels target_repo True p = (Inl e, ?p')"
    using Inl by (rule sync_labels_to_repo_failed)
  have 2: "new_calls p ?p' = [Get_labels (full_name target_repo)]"
    by (rule new_calls_append) simp
  have 3: "world ?p' = world p"
    by simp
  from 1 2 3 Inl show ?thesis
    by simp
next
  case (Inr T)
  let ?A = "filter (\<lambda>l. name l \<notin> gh_name ` set T) source_labels"
  let ?P = "filter (\<lambda>l. name l \<in> gh_name ` set T) source_labels"
  obtain p' ls where r:
    "sync_labels_to_repo g source_labels target_repo True p =
       (Inr (length (created ls), length (skipped_existing ls), length (errors ls)), p')"
    "out p' = out p @ ls"
    "skipped_existing ls = map name ?P"
    "errors ls = [] \<longrightarrow> created ls = map name ?A"
    "True \<longrightarrow> errors ls = []"
    "calls p' = calls p @ Get_labels (full_name target_repo) #
       (if True then [] else map (create_call target_repo) ?A)"
    "True \<longrightarrow> world p' = world p"
    using sync_labels_to_repo_returns [OF Inr disjI1 [OF TrueI], where S=source_labels]
    by (elim exE conjE) (rule that)
  have nl: "new_lines p p' = ls"
    using r(2) by (rule new_lines_append)
  have nc: "new_calls p p' = [Get_labels (full_name target_repo)]"
    by (rule new_calls_append) (use r(6) in simp)
  have w: "world p' = world p"
    using r(7) by simp
  have e: "errors ls = []"
    using r(5) by simp
  have c: "created ls = map name ?A"
    using r(4) e by blast
  have res: "sync_labels_to_repo g source_labels target_repo True p =
      (Inr (length ?A, length ?P, 0), p')"
    unfolding r(1) using e c r(3) by simp
  have real: "fst (sync_labels_to_repo g source_labels target_repo False p) =
        Inr (length ?A, length ?P, 0)
      \<and> created (new_lines p (snd (sync_labels_to_repo g source_labels target_repo False p)))
          = map name ?A
      \<and> skipped_existing (new_lines p (snd (sync_labels_to_repo g source_labels target_repo
          False p))) = map name ?P"
    if H: "\<forall>w n c d. \<exists>w'. api_create_label g w target_repo n c d = Inr w'"
  proof -
    obtain q ms where q:
      "sync_labels_to_repo g source_labels target_repo False p =
         (Inr (length (created ms), length (skipped_existing ms), length (errors ms)), q)"
      "out q = out p @ ms"
      "skipped_existing ms = map name ?P"
      "errors ms = [] \<longrightarrow> created ms = map name ?A"
      "(\<forall>w n c d. \<exists>w'. api_create_label g w target_repo n c d = Inr w') \<longrightarrow> errors ms = []"
      using sync_labels_to_repo_returns [OF Inr
          disjI2 [OF disjI2 [OF succeeding_never_raises [OF H]]],
          where S=source_labels and d=False]
      by (elim exE conjE) (rule that)
    have nq: "new_lines p q = ms"
      using q(2) by (rule new_lines_append)
    have eq: "errors ms = []"
      using q(5) H by blast
    have cq: "created ms = map name ?A"
      using q(4) eq by blast
    show ?thesis
      unfolding q(1) using nq eq cq q(3) by simp
  qed
  have T: "T' = T" if "api_get_labels g (world p) target_repo = Inr T'" for T'
    using that Inr by simp
  show ?thesis
    apply (rule exI [of _ "Inr (length ?A, length ?P, 0)"])
    apply (rule exI [of _ p'])
    using res nc w nl c r(3) e real T by auto
qed

text \<open>
  C7. Whenever the labels \<open>T\<close> of the target are fetched, the requests the function sends
  are the listing and then, in a real run, one create request for each source label whose
  name is not in \<open>T\<close>, in the order of the source, up to the label at which the loop stops:
  the last one when the function returns, the one whose create call raised an exception
  that the function does not catch otherwise. Every request is the listing or a create
  request for a source label whose name is not in \<open>T\<close>. The source labels whose name is in
  \<open>T\<close> are reported as skipped, all of them when the function returns and those the loop
  has reached otherwise, and no request at all carries such a name, whatever colour or
  description the source gives the label.
\<close>

theorem only_creates_for_absent_names:
  assumes "api_get_labels g (world p) target_repo = Inr T"
  shows "\<exists>res p' k j. sync_labels_to_repo g source_labels target_repo dry_run p = (res, p')
     \<and> k \<le> length source_labels \<and> j \<le> length source_labels
     \<and> ((\<exists>t. res = Inr t) \<longrightarrow> k = length source_labels \<and> j = length source_labels)
     \<and> new_calls p p' = Get_labels (full_name target_repo) #
         (if dry_run then []
          else map (create_call target_repo)
                 (filter (\<lambda>l. name l \<notin> gh_name ` set T) (take k source_labels)))
     \<and> skipped_existing (new_lines p p') =
         map name (filter (\<lambda>l. name l \<in> gh_name ` set T) (take j source_labels))
     \<and> (\<forall>a \<in> set (new_calls p p'). a = Get_labels (full_name target_repo)
          \<or> (\<exists>l \<in> set source_labels. name l \<notin> gh_name ` set T
                \<and> a = Create_label (full_name target_repo) (name l) (color l) (description l)))
     \<and> (\<forall>l \<in> set source_labels. name l \<in> gh_name ` set T \<longrightarrow>
          (\<forall>c d. Create_label (full_name target_repo) (name l) c d \<notin> set (new_calls p p')))"
proof -
  let ?A = "\<lambda>k. filter (\<lambda>l. name l \<notin> gh_name ` set T) (take k source_labels)"
  obtain res p' ls k j where F1: "sync_labels_to_repo g source_labels target_repo dry_run p =
      (res, p')"
    and F2: "out p' = out p @ ls"
    and F4: "k \<le> length source_labels"
    and F5: "j \<le> length source_labels"
    and F6: "calls p' = calls p @ Get_labels (full_name target_repo) #
          (if dry_run then [] else map (create_call target_repo)
             (filter (\<lambda>l. name l \<notin> gh_name ` set T) (take k source_labels)))"
    and F7: "skipped_existing ls =
        map name (filter (\<lambda>l. name l \<in> gh_name ` set T) (take j source_labels))"
    and F11: "\<forall>t. res = Inr t \<longrightarrow>
           k = length source_labels \<and> j = length source_labels
         \<and> t = (length (created ls), length (skipped_existing ls), length (errors ls))
         \<and> mset (created ls) + mset (map fst (errors ls)) =
             mset (map name (filter (\<lambda>l. name l \<notin> gh_name ` set T) source_labels))
         \<and> (errors ls = [] \<longrightarrow>
              created ls = map name (filter (\<lambda>l. name l \<notin> gh_name ` set T) source_labels))"
    using sync_labels_to_repo_fetched [OF assms, where S=source_labels and d=dry_run]
    by (elim exE conjE) (rule that)
  have nl: "new_lines p p' = ls"
    using F2 by (rule new_lines_append)
  have nc: "new_calls p p' = Get_labels (full_name target_repo) #
       (if dry_run then [] else map (create_call target_repo) (?A k))"
    using F6 by (rule new_calls_append)
  have full: "(\<exists>t. res = Inr t) \<longrightarrow> k = length source_labels \<and> j = length source_labels"
  proof
    assume "\<exists>t. res = Inr t"
    then obtain t where t: "res = Inr t" ..
    from F11 [rule_format, OF t] show "k = length source_labels \<and> j = length source_labels"
      by simp
  qed
  have sk: "skipped_existing (new_lines p p') =
      map name (filter (\<lambda>l. name l \<in> gh_name ` set T) (take j source_labels))"
    unfolding nl by (rule F7)
  have mem: "l \<in> set source_labels \<and> name l \<notin> gh_name ` set T" if "l \<in> set (?A k)" for l
  proof -
    from that have t: "l \<in> set (take k source_labels)" and n: "name l \<notin> gh_name ` set T"
      by simp_all
    from t have "l \<in> set source_labels"
      by (rule in_set_takeD)
    with n show ?thesis
      by (rule conjI [rotated])
  qed
  have only: "\<forall>a \<in> set (new_calls p p'). a = Get_labels (full_name target_repo)
          \<or> (\<exists>l \<in> set source_labels. name l \<notin> gh_name ` set T
                \<and> a = Create_label (full_name target_repo) (name l) (color l) (description l))"
  proof
    fix a
    assume a: "a \<in> set (new_calls p p')"
    show "a = Get_labels (full_name target_repo)
          \<or> (\<exists>l \<in> set source_labels. name l \<notin> gh_name ` set T
                \<and> a = Create_label (full_name target_repo) (name l) (color l) (description l))"
    proof (cases "a = Get_labels (full_name target_repo)")
      case True
      then show ?thesis ..
    next
      case False
      with a have "a \<in> set (if dry_run then [] else map (create_call target_repo) (?A k))"
        unfolding nc by simp
      then have "a \<in> create_call target_repo ` set (?A k)"
        by (cases dry_run) simp_all
      then obtain l where l: "l \<in> set (?A k)" and al: "a = create_call target_repo l"
        by blast
      note m = mem [OF l]
      have "\<exists>l \<in> set source_labels. name l \<notin> gh_name ` set T
          \<and> a = Create_label (full_name target_repo) (name l) (color l) (description l)"
        using m [THEN conjunct1] m [THEN conjunct2] al [unfolded create_call_def]
        by (intro bexI [of _ l] conjI)
      then show ?thesis ..
    qed
  qed
  have none: "\<forall>l \<in> set source_labels. name l \<in> gh_name ` set T \<longrightarrow>
      (\<forall>c d. Create_label (full_name target_repo) (name l) c d \<notin> set (new_calls p p'))"
  proof (intro ballI impI allI notI)
    fix l c d
    assume l: "name l \<in> gh_name ` set T"
      and a: "Create_label (full_name target_repo) (name l) c d \<in> set (new_calls p p')"
    from only a have "Create_label (full_name target_repo) (name l) c d =
          Get_labels (full_name target_repo)
        \<or> (\<exists>l' \<in> set source_labels. name l' \<notin> gh_name ` set T
              \<and> Create_label (full_name target_repo) (name l) c d =
                  Create_label (full_name target_repo) (name l') (color l') (description l'))"
      by (rule bspec)
    with l show False
      by (elim disjE bexE conjE) simp_all
  qed
  show ?thesis
    apply (rule exI [of _ res])
    apply (rule exI [of _ p'])
    apply (rule exI [of _ k])
    apply (rule exI [of _ j])
    apply (intro conjI)
          apply (fact F1)
         apply (fact F4)
        apply (fact F5)
       apply (fact full)
      apply (fact nc)
     apply (fact sk)
     apply (fact only)
    apply (fact none)
    done
qed

text \<open>
  C10. With \<^verbatim>\<open>dry_run\<close> set, whenever the labels of the target are fetched, the function
  returns an error counter of 0 and reports no error: it sends no create request, and an
  error is counted only when a create request fails.
\<close>

theorem dry_run_no_errors:
  assumes "api_get_labels g (world p) target_repo = Inr T"
  shows "\<exists>c s p'. sync_labels_to_repo g source_labels target_repo True p = (Inr (c, s, 0), p')
     \<and> errors (new_lines p p') = []
     \<and> new_calls p p' = [Get_labels (full_name target_repo)]"
proof -
  obtain p' ls where r:
    "sync_labels_to_repo g source_labels target_repo True p =
       (Inr (length (created ls), length (skipped_existing ls), length (errors ls)), p')"
    "out p' = out p @ ls"
    "True \<longrightarrow> errors ls = []"
    "calls p' = calls p @ Get_labels (full_name target_repo) #
       (if True then [] else map (create_call target_repo)
          (filter (\<lambda>l. name l \<notin> gh_name ` set T) source_labels))"
    using sync_labels_to_repo_returns [OF assms disjI1 [OF TrueI], where S=source_labels]
    by (elim exE conjE) (rule that)
  have nl: "new_lines p p' = ls"
    using r(2) by (rule new_lines_append)
  have nc: "new_calls p p' = [Get_labels (full_name target_repo)]"
    by (rule new_calls_append) (use r(4) in simp)
  have e: "errors ls = []"
    using r(3) by simp
  show ?thesis
    apply (rule exI [of _ "length (created ls)"])
    apply (rule exI [of _ "length (skipped_existing ls)"])
    apply (rule exI [of _ p'])
    using r(1) e nc nl by simp
qed

lemmas example_defs =
  acme_def acme_rejecting_def acme_raising_def example_github_def hub0_def start_def
  labels_of_def svc_a_def bug_def docs_def gh_bug_def gh_docs_def

lemmas sync_defs =
  sync_labels_to_repo_def repo_get_labels_def print_def sync_label_def create_label_def
  existing_labels_of_def message_def validation_failed_def Let_def

theorem reconcile_subset_target_witness:
  "api_get_labels acme (world (start hub0)) svc_a = Inr [gh_bug]
   \<and> gh_name ` set [gh_bug] \<subseteq> name ` set [bug, docs]
   \<and> (\<forall>w n c d. \<exists>w'. api_create_label acme w svc_a n c d = Inr w')
   \<and> (\<exists>p'. sync_labels_to_repo acme [bug, docs] svc_a False (start hub0) =
          (Inr (1, 1, 0), p')
        \<and> created (new_lines (start hub0) p') = [''docs'']
        \<and> skipped_existing (new_lines (start hub0) p') = [''bug'']
        \<and> errors (new_lines (start hub0) p') = [])"
proof -
  have h1: "api_get_labels acme (world (start hub0)) svc_a = Inr [gh_bug]"
    by (simp add: example_defs)
  have h2: "gh_name ` set [gh_bug] \<subseteq> name ` set [bug, docs]"
    by (simp add: example_defs)
  have h3: "\<forall>w n c d. \<exists>w'. api_create_label acme w svc_a n c d = Inr w'"
    by (simp add: example_defs)
  from reconcile_subset_target [OF h1 h2 h3] obtain p' where
    "sync_labels_to_repo acme [bug, docs] svc_a False (start hub0) =
        (Inr (length (filter (\<lambda>l. name l \<notin> gh_name ` set [gh_bug]) [bug, docs]),
              length (filter (\<lambda>l. name l \<in> gh_name ` set [gh_bug]) [bug, docs]), 0), p')"
    "created (new_lines (start hub0) p') =
        map name (filter (\<lambda>l. name l \<notin> gh_name ` set [gh_bug]) [bug, docs])"
    "skipped_existing (new_lines (start hub0) p') =
        map name (filter (\<lambda>l. name l \<in> gh_name ` set [gh_bug]) [bug, docs])"
    "errors (new_lines (start hub0) p') = []"
    by blast
  then have "sync_labels_to_repo acme [bug, docs] svc_a False (start hub0) = (Inr (1, 1, 0), p')
      \<and> created (new_lines (start hub0) p') = [''docs'']
      \<and> skipped_existing (new_lines (start hub0) p') = [''bug'']
      \<and> errors (new_lines (start hub0) p') = []"
    by (simp add: bug_def docs_def gh_bug_def)
  then show ?thesis
    using h1 h2 h3 by blast
qed

theorem tallies_sum_to_source_witness:
  "api_get_labels (acme_rejecting [''docs'']) (world (start hub0)) svc_a = Inr [gh_bug]
   \<and> (\<exists>c s e p'. sync_labels_to_repo (acme_rejecting [''docs'']) [bug, docs] svc_a False
          (start hub0) = (Inr (c, s, e), p')
        \<and> c + s + e = 2)"
proof -
  have h1: "api_get_labels (acme_rejecting [''docs'']) (world (start hub0)) svc_a =
      Inr [gh_bug]"
    by (simp add: example_defs)
  have h2: "False \<or> (\<forall>w n c d x.
      api_create_label (acme_rejecting [''docs'']) w svc_a n c d = Inl x \<longrightarrow>
      (\<exists>e m. x = GithubException e \<and> message e = Inr m))"
    by (simp add: example_defs message_def validation_failed_def)
  note t = tallies_sum_to_source [OF h1, where source_labels="[bug, docs]" and dry_run=False]
  from t [THEN conjunct2, rule_format, OF h2] obtain c s e p' where r:
    "sync_labels_to_repo (acme_rejecting [''docs'']) [bug, docs] svc_a False (start hub0) =
        (Inr (c, s, e), p')"
    by (elim exE)
  from t [THEN conjunct1, rule_format, OF r] have "c + s + e = length [bug, docs]"
    by (rule conjunct1)
  then have "c + s + e = 2"
    by simp
  with r h1 show ?thesis
    by blast
qed

text \<open>
  C2, as stated, fails when a create call raises an exception that is not a
  \<^verbatim>\<open>GithubException\<close>: the \<^verbatim>\<open>except\<close> clause does not catch it, the function returns no
  counters, and the label is reported under no category. Here the connection fails when
  \<open>docs\<close> is created: of the two source labels, \<open>bug\<close> alone is reported.
\<close>

theorem uncaught_create_leaves_label_uncounted:
  "api_get_labels acme_offline (world (start hub0)) svc_a = Inr [gh_bug]
   \<and> sync_labels_to_repo acme_offline [bug, docs] svc_a False (start hub0) =
       (Inl (Other_exception ''ConnectionError''),
        \<lparr>world = hub0,
         out = [Syncing_labels_to ''acme/svc-a'', Label_already_exists ''bug''],
         calls = [Get_labels ''acme/svc-a'',
                  Create_label ''acme/svc-a'' ''docs'' ''0000ff'' ''Documentation'']\<rparr>)
   \<and> created [Syncing_labels_to ''acme/svc-a'', Label_already_exists ''bug''] = []
   \<and> skipped_existing [Syncing_labels_to ''acme/svc-a'', Label_already_exists ''bug''] =
       [''bug'']
   \<and> errors [Syncing_labels_to ''acme/svc-a'', Label_already_exists ''bug''] = []
   \<and> map name [bug, docs] = [''bug'', ''docs'']"
  by (simp add: acme_offline_def sync_defs example_defs)

theorem dry_run_issues_no_create_witness:
  "api_get_labels acme (world (start hub0)) svc_a = Inr [gh_bug]
   \<and> (\<forall>w n c d. \<exists>w'. api_create_label acme w svc_a n c d = Inr w')
   \<and> (\<exists>p'. sync_labels_to_repo acme [bug, docs] svc_a True (start hub0) =
          (Inr (1, 1, 0), p')
        \<and> new_calls (start hub0) p' = [Get_labels ''acme/svc-a'']
        \<and> world p' = hub0
        \<and> created (new_lines (start hub0) p') = [''docs'']
        \<and> fst (sync_labels_to_repo acme [bug, docs] svc_a False (start hub0)) =
            Inr (1, 1, 0))"
proof -
  have h1: "api_get_labels acme (world (start hub0)) svc_a = Inr [gh_bug]"
    by (simp add: example_defs)
  have h3: "\<forall>w n c d. \<exists>w'. api_create_label acme w svc_a n c d = Inr w'"
    by (simp add: example_defs)
  from dry_run_issues_no_create [of acme "[bug, docs]" svc_a "start hub0"]
  obtain res p' where r:
    "sync_labels_to_repo acme [bug, docs] svc_a True (start hub0) = (res, p')"
    "new_calls (start hub0) p' = [Get_labels (full_name svc_a)]"
    "world p' = world (start hub0)"
    "\<forall>T. api_get_labels acme (world (start hub0)) svc_a = Inr T \<longrightarrow>
          res = Inr (length (filter (\<lambda>l. name l \<notin> gh_name ` set T) [bug, docs]),
                     length (filter (\<lambda>l. name l \<in> gh_name ` set T) [bug, docs]), 0)
        \<and> created (new_lines (start hub0) p') =
            map name (filter (\<lambda>l. name l \<notin> gh_name ` set T) [bug, docs])
        \<and> skipped_existing (new_lines (start hub0) p') =
            map name (filter (\<lambda>l. name l \<in> gh_name ` set T) [bug, docs])
        \<and> errors (new_lines (start hub0) p') = []
        \<and> ((\<forall>w n c d. \<exists>w'. api_create_label acme w svc_a n c d = Inr w') \<longrightarrow>
             fst (sync_labels_to_repo acme [bug, docs] svc_a False (start hub0)) = res
           \<and> created (new_lines (start hub0) (snd (sync_labels_to_repo acme [bug, docs] svc_a
                 False (start hub0)))) = created (new_lines (start hub0) p')
           \<and> skipped_existing (new_lines (start hub0) (snd (sync_labels_to_repo acme
                 [bug, docs] svc_a False (start hub0)))) =
               skipped_existing (new_lines (start hub0) p'))"
    by blast
  from r(4) h1 h3 have t:
    "res = Inr (length (filter (\<lambda>l. name l \<notin> gh_name ` set [gh_bug]) [bug, docs]),
                length (filter (\<lambda>l. name l \<in> gh_name ` set [gh_bug]) [bug, docs]), 0)"
    "created (new_lines (start hub0) p') =
        map name (filter (\<lambda>l. name l \<notin> gh_name ` set [gh_bug]) [bug, docs])"
    "fst (sync_labels_to_repo acme [bug, docs] svc_a False (start hub0)) = res"
    by blast+
  have res: "res = Inr (1, 1, 0)"
    using t(1) by (simp add: bug_def docs_def gh_bug_def)
  have c: "created (new_lines (start hub0) p') = [''docs'']"
    using t(2) by (simp add: bug_def docs_def gh_bug_def)
  have nc: "new_calls (start hub0) p' = [Get_labels ''acme/svc-a'']"
    using r(2) by (simp add: svc_a_def)
  have w: "world p' = hub0"
    using r(3) by (simp add: start_def)
  from r(1) res c nc w t(3) h1 h3 show ?thesis
    by blast
qed

theorem only_creates_for_absent_names_witness:
  "api_get_labels acme (world (start hub0)) svc_a = Inr [gh_bug]
   \<and> bug \<in> set [bug, docs] \<and> name bug \<in> gh_name ` set [gh_bug]
   \<and> (\<exists>p'. sync_labels_to_repo acme [bug, docs] svc_a False (start hub0) =
          (Inr (1, 1, 0), p')
        \<and> new_calls (start hub0) p' =
            [Get_labels ''acme/svc-a'',
             Create_label ''acme/svc-a'' ''docs'' ''0000ff'' ''Documentation'']
        \<and> skipped_existing (new_lines (start hub0) p') = [''bug'']
        \<and> Create_label ''acme/svc-a'' ''bug'' ''ff0000'' [] \<notin> set (new_calls (start hub0) p'))"
proof -
  have h1: "api_get_labels acme (world (start hub0)) svc_a = Inr [gh_bug]"
    by (simp add: example_defs)
  have h2: "bug \<in> set [bug, docs]" "name bug \<in> gh_name ` set [gh_bug]"
    by (simp_all add: example_defs)
  have h3: "fst (sync_labels_to_repo acme [bug, docs] svc_a False (start hub0)) =
      Inr (1, 1, 0)"
    by (simp add: sync_defs example_defs)
  from only_creates_for_absent_names [OF h1, where source_labels="[bug, docs]"
      and dry_run=False]
  obtain res p' k j where r:
    "sync_labels_to_repo acme [bug, docs] svc_a False (start hub0) = (res, p')"
    and full: "(\<exists>t. res = Inr t) \<longrightarrow> k = length [bug, docs] \<and> j = length [bug, docs]"
    and calls: "new_calls (start hub0) p' = Get_labels (full_name svc_a) #
         (if False then []
          else map (create_call svc_a)
                 (filter (\<lambda>l. name l \<notin> gh_name ` set [gh_bug]) (take k [bug, docs])))"
    and skipped: "skipped_existing (new_lines (start hub0) p') =
         map name (filter (\<lambda>l. name l \<in> gh_name ` set [gh_bug]) (take j [bug, docs]))"
    and none: "\<forall>l \<in> set [bug, docs]. name l \<in> gh_name ` set [gh_bug] \<longrightarrow>
          (\<forall>c d. Create_label (full_name svc_a) (name l) c d \<notin> set (new_calls (start hub0) p'))"
    by (elim exE conjE) (rule that)
  have res: "res = Inr (1, 1, 0)"
    using h3 unfolding r by simp
  then have kj: "k = 2" "j = 2"
    using full by simp_all
  have nc: "new_calls (start hub0) p' =
      [Get_labels ''acme/svc-a'',
       Create_label ''acme/svc-a'' ''docs'' ''0000ff'' ''Documentation'']"
    using calls unfolding kj by (simp add: bug_def docs_def gh_bug_def svc_a_def create_call_def)
  have sk: "skipped_existing (new_lines (start hub0) p') = [''bug'']"
    using skipped unfolding kj by (simp add: bug_def docs_def gh_bug_def)
  have "Create_label (full_name svc_a) (name bug) ''ff0000'' [] \<notin> set (new_calls (start hub0) p')"
    using none h2 by blast
  then have no: "Create_label ''acme/svc-a'' ''bug'' ''ff0000'' [] \<notin> set (new_calls (start hub0) p')"
    by (simp add: svc_a_def bug_def)
  from r [unfolded res] nc sk no h1 h2 show ?thesis
    by blast
qed

theorem dry_run_no_errors_witness:
  "api_get_labels (acme_rejecting [''docs'']) (world (start hub0)) svc_a = Inr [gh_bug]
   \<and> (\<exists>c s p'. sync_labels_to_repo (acme_rejecting [''docs'']) [bug, docs] svc_a True
          (start hub0) = (Inr (c, s, 0), p')
        \<and> errors (new_lines (start hub0) p') = [])"
proof -
  have h1: "api_get_labels (acme_rejecting [''docs'']) (world (start hub0)) svc_a =
      Inr [gh_bug]"
    by (simp add: example_defs)
  from dry_run_no_errors [OF h1, of "[bug, docs]"] h1 show ?thesis
    by blast
qed

lemmas main_defs =
  main_def main_source_def main_targets_def sync_target_def get_repo_def get_labels_def
  load_repos_def py_format_def full_repo_name_of_def not_set_def example_env_def

text \<open>
  C3, as stated of the run, fails: \<^verbatim>\<open>main\<close> reads no flag and calls
  \<^verbatim>\<open>sync_labels_to_repo\<close> without its third argument, so every run of the script is a real
  run. Here the source \<open>acme/labels\<close> has the labels \<open>bug\<close> and \<open>docs\<close> and the target
  \<open>acme/svc-a\<close> has \<open>bug\<close>: the run sends the create request for \<open>docs\<close>, and the label is
  in the target afterwards.
\<close>

theorem run_sends_create_requests:
  "calls (snd (main acme example_str example_env (Some repos_one) hub0)) =
     [Get_repo ''acme/labels'', Get_labels ''acme/labels'',
      Get_repo ''acme/svc-a'', Get_labels ''acme/svc-a'',
      Create_label ''acme/svc-a'' ''docs'' ''0000ff'' ''Documentation'']
   \<and> labels_of hub0 ''acme/svc-a'' = [gh_bug]
   \<and> labels_of (world (snd (main acme example_str example_env (Some repos_one) hub0)))
        ''acme/svc-a'' = [gh_bug, gh_docs]
   \<and> fst (main acme example_str example_env (Some repos_one) hub0) = Exit 0"
  by (simp add: main_defs repos_one_def sync_defs example_defs)

subsection \<open>Running twice\<close>

lemma sync_loop_error_count_mono:
  assumes "sync_loop g r ex d S s = (Inr t, q)"
  shows "error_count (fst s) \<le> error_count t"
proof -
  obtain ls k j where "\<forall>t'. fst (sync_loop g r ex d S s) = Inr t' \<longrightarrow>
           k = length S \<and> j = length S
         \<and> mset (created ls) + mset (map fst (errors ls)) =
             mset (map name (filter (\<lambda>l. ex (name l) = None) S))
         \<and> (errors ls = [] \<longrightarrow> created ls = map name (filter (\<lambda>l. ex (name l) = None) S))
         \<and> created_count t' = created_count (fst s) + length (created ls)
         \<and> skipped_count t' = skipped_count (fst s) + length (skipped_existing ls)
         \<and> error_count t' = error_count (fst s) + length (errors ls)"
    using sync_loop_run [of g r ex d S s] by (elim exE conjE) (rule that)
  then have "error_count t = error_count (fst s) + length (errors ls)"
    unfolding assms fst_conv by simp
  then show ?thesis
    by simp
qed

text \<open>
  A real run that counts no error leaves every label it had to create listed in the
  target, provided a successful create call adds the label and removes none.
\<close>

lemma sync_loop_creates_listed:
  assumes remote: "\<And>w n c d w' L. api_create_label g w r n c d = Inr w' \<Longrightarrow>
      api_get_labels g w r = Inr L \<Longrightarrow>
      \<exists>L'. api_get_labels g w' r = Inr L' \<and> insert n (gh_name ` set L) \<subseteq> gh_name ` set L'"
    and "api_get_labels g (world (snd s)) r = Inr L"
    and "A \<subseteq> gh_name ` set L"
    and "sync_loop g r ex False S s = (Inr t, q)"
    and "error_count t = error_count (fst s)"
  shows "\<exists>L'. api_get_labels g (world q) r = Inr L'
    \<and> A \<union> {name l |l. l \<in> set S \<and> ex (name l) = None} \<subseteq> gh_name ` set L'"
  using assms(2-5)
proof (induction S arbitrary: s L A)
  case Nil
  then show ?case by simp
next
  case (Cons l S)
  obtain res1 p1 where sl: "sync_label g r ex False l s = (res1, p1)"
    by (cases "sync_label g r ex False l s")
  show ?case
  proof (cases res1)
    case (Inl y)
    with sl Cons.prems(3) show ?thesis
      by simp
  next
    case (Inr t1)
    note sl1 = sl [unfolded Inr]
    have rest: "sync_loop g r ex False S (t1, p1) = (Inr t, q)"
      using Cons.prems(3) sl1 by simp
    obtain x where x: "error_count t1 = error_count (fst s) + length (error_of x)"
      using sync_label_returns [OF sl1] by (elim exE conjE) (rule that)
    have le2: "error_count t1 \<le> error_count t"
      using sync_loop_error_count_mono [OF rest] by simp
    have e1: "error_count t1 = error_count (fst s)"
      using x le2 Cons.prems(4) by simp
    have e2: "error_count t = error_count (fst (t1, p1))"
      using e1 Cons.prems(4) by simp
    show ?thesis
    proof (cases rule: sync_label_cases [where ex=ex and l=l and d=False and g=g and s=s and r=r])
      case skip
      have w: "world p1 = world (snd s)"
        using skip sl1 by (auto simp add: sync_label_skip)
      have L: "api_get_labels g (world (snd (t1, p1))) r = Inr L"
        using Cons.prems(1) w by simp
      have "\<exists>L'. api_get_labels g (world q) r = Inr L'
          \<and> A \<union> {name l |l. l \<in> set S \<and> ex (name l) = None} \<subseteq> gh_name ` set L'"
        using L Cons.prems(2) rest e2 by (rule Cons.IH)
      moreover have "{name l' |l'. l' \<in> set (l # S) \<and> ex (name l') = None} =
          {name l |l. l \<in> set S \<and> ex (name l) = None}"
        using skip by auto
      ultimately show ?thesis by simp
    next
      case dry
      then show ?thesis by simp
    next
      case (ok w')
      have w: "world p1 = w'"
        using ok sl1 by (auto simp add: sync_label_ok)
      obtain L1 where L1: "api_get_labels g w' r = Inr L1"
          "insert (name l) (gh_name ` set L) \<subseteq> gh_name ` set L1"
        using remote [OF ok(3) Cons.prems(1)] by blast
      have A1: "insert (name l) A \<subseteq> gh_name ` set L1"
        using L1(2) Cons.prems(2) by blast
      have L: "api_get_labels g (world (snd (t1, p1))) r = Inr L1"
        using L1(1) w by simp
      have "\<exists>L'. api_get_labels g (world q) r = Inr L'
          \<and> insert (name l) A \<union> {name l |l. l \<in> set S \<and> ex (name l) = None}
              \<subseteq> gh_name ` set L'"
        using L A1 rest e2 by (rule Cons.IH)
      moreover have "A \<union> {name l' |l'. l' \<in> set (l # S) \<and> ex (name l') = None} =
          insert (name l) A \<union> {name l |l. l \<in> set S \<and> ex (name l) = None}"
        using ok(1) by auto
      ultimately show ?thesis by simp
    next
      case (fail e m)
      have "error_count t1 = error_count (fst s) + 1"
        using fail sl1 by (auto simp add: sync_label_fail)
      with e1 show ?thesis by simp
    next
      case (abort x' y)
      with sl1 show ?thesis by simp
    qed
  qed
qed

text \<open>
  C9, as stated: whatever the first run did, the second run creates nothing and skips
  every source label. It fails when a create call of the first run is rejected: the label
  is still missing at the second run, which tries to create it again instead of skipping
  it. Here the service rejects \<open>docs\<close>; the second run skips \<open>bug\<close> only.
\<close>

theorem second_run_counterexample:
  "\<not> (created (new_lines rejected_run1 rejected_run2) = []
      \<and> skipped_existing (new_lines rejected_run1 rejected_run2) = map name [bug, docs])"
proof -
  have 1: "rejected_run1 =
      \<lparr>world = hub0,
       out = [Syncing_labels_to ''acme/svc-a'', Label_already_exists ''bug'',
              Failed_to_create_label ''docs'' ''Validation Failed'',
              Summary_for ''acme/svc-a'' 0 1 1],
       calls = [Get_labels ''acme/svc-a'',
                Create_label ''acme/svc-a'' ''docs'' ''0000ff'' ''Documentation'']\<rparr>"
    by (simp add: rejected_run1_def sync_defs example_defs)
  have 2: "skipped_existing (new_lines rejected_run1 rejected_run2) = [''bug'']"
    unfolding rejected_run2_def 1
    by (simp add: sync_defs example_defs new_lines_def)
  show ?thesis
    unfolding 2 by (simp add: bug_def docs_def)
qed

text \<open>
  C9, amended: when the first run is a real run that fetched the target and counted no
  error, and the target changes only through the create calls of that run (a successful
  create call leaves the created label, and every label that was there, in the listing of
  the target), the second run, dry or real, returns the counters 0, the number of source
  labels and 0: it creates nothing, skips every source label and reports no error.
\<close>

theorem second_run_skips_everything:
  assumes "sync_labels_to_repo g source_labels target_repo False p = (Inr (c, s, 0), p1)"
    and "\<forall>w n c d w' L. api_create_label g w target_repo n c d = Inr w' \<longrightarrow>
      api_get_labels g w target_repo = Inr L \<longrightarrow>
      (\<exists>L'. api_get_labels g w' target_repo = Inr L'
         \<and> insert n (gh_name ` set L) \<subseteq> gh_name ` set L')"
  shows "\<exists>p2. sync_labels_to_repo g source_labels target_repo dry_run p1 =
        (Inr (0, length source_labels, 0), p2)
      \<and> created (new_lines p1 p2) = []
      \<and> skipped_existing (new_lines p1 p2) = map name source_labels
      \<and> errors (new_lines p1 p2) = []"
proof -
  obtain T where T: "api_get_labels g (world p) target_repo = Inr T"
  proof (cases "api_get_labels g (world p) target_repo")
    case (Inl e)
    from sync_labels_to_repo_failed [OF Inl, of source_labels False] assms(1)
    show ?thesis by simp
  next
    case (Inr T)
    then show ?thesis by (rule that)
  qed
  define ex where "ex = existing_labels_of T"
  define s0 where "s0 = (\<lparr>created_count = 0, skipped_count = 0, error_count = 0\<rparr>,
         (print (Syncing_labels_to (full_name target_repo)) p)
           \<lparr>calls := calls p @ [Get_labels (full_name target_repo)]\<rparr>)"
  obtain res q where R: "sync_loop g target_repo ex False source_labels s0 = (res, q)"
    by (cases "sync_loop g target_repo ex False source_labels s0")
  have loop: "(case (res, q) of
        (Inl x, p'') \<Rightarrow> (Inl x, p'')
      | (Inr t, p'') \<Rightarrow> (Inr (created_count t, skipped_count t, error_count t),
           print (Summary_for (full_name target_repo) (created_count t) (skipped_count t)
             (error_count t)) p'')) = (Inr (c, s, 0), p1)"
    unfolding R [symmetric] s0_def ex_def
    using sync_labels_to_repo_loop [OF T, of source_labels False] assms(1) by simp
  obtain t where t: "res = Inr t" and e0t: "error_count t = 0" and w1: "world p1 = world q"
  proof (cases res)
    case (Inl y)
    with loop show ?thesis by simp
  next
    case (Inr t)
    with loop have "error_count t = 0" "world p1 = world q"
      by auto
    with Inr show ?thesis by (rule that)
  qed
  have R': "sync_loop g target_repo ex False source_labels s0 = (Inr t, q)"
    using R t by simp
  have e0: "error_count t = error_count (fst s0)"
    using e0t by (simp add: s0_def)
  have T0: "api_get_labels g (world (snd s0)) target_repo = Inr T"
    using T by (simp add: s0_def)
  have remote: "\<exists>L'. api_get_labels g w' target_repo = Inr L'
      \<and> insert n (gh_name ` set L) \<subseteq> gh_name ` set L'"
    if "api_create_label g w target_repo n c d = Inr w'" "api_get_labels g w target_repo = Inr L"
    for w n c d w' L
    using assms(2) that by blast
  obtain L' where L': "api_get_labels g (world p1) target_repo = Inr L'"
      "gh_name ` set T \<union> {name l |l. l \<in> set source_labels \<and> ex (name l) = None}
         \<subseteq> gh_name ` set L'"
  proof -
    have "\<exists>L'. api_get_labels g (world q) target_repo = Inr L'
        \<and> gh_name ` set T \<union> {name l |l. l \<in> set source_labels \<and> ex (name l) = None}
            \<subseteq> gh_name ` set L'"
    proof (rule sync_loop_creates_listed [where L=T and s=s0 and t=t])
      fix w n c d w' L
      assume "api_create_label g w target_repo n c d = Inr w'"
        and "api_get_labels g w target_repo = Inr L"
      then show "\<exists>L'. api_get_labels g w' target_repo = Inr L'
          \<and> insert n (gh_name ` set L) \<subseteq> gh_name ` set L'"
        by (rule remote)
    next
      show "api_get_labels g (world (snd s0)) target_repo = Inr T"
        by (rule T0)
    next
      show "gh_name ` set T \<subseteq> gh_name ` set T"
        by simp
    next
      show "sync_loop g target_repo ex False source_labels s0 = (Inr t, q)"
        by (rule R')
    next
      show "error_count t = error_count (fst s0)"
        by (rule e0)
    qed
    then show ?thesis
      unfolding w1 [symmetric] using that by blast
  qed
  have all: "name l \<in> gh_name ` set L'" if "l \<in> set source_labels" for l
  proof (cases "ex (name l) = None")
    case True
    with that L'(2) show ?thesis by blast
  next
    case False
    then have "name l \<in> gh_name ` set T"
      unfolding ex_def using existing_labels_of_dom [of T "name l"] by simp
    with L'(2) show ?thesis by blast
  qed
  have present_all: "\<forall>l \<in> set source_labels. name l \<in> gh_name ` set L'"
    using all by blast
  have present: "filter (\<lambda>l. name l \<in> gh_name ` set L') source_labels = source_labels"
    using all by (simp add: filter_id_conv)
  have absent: "filter (\<lambda>l. name l \<notin> gh_name ` set L') source_labels = []"
    using all by (simp add: filter_empty_conv)
  obtain p2 ls where r:
    "sync_labels_to_repo g source_labels target_repo dry_run p1 =
       (Inr (length (created ls), length (skipped_existing ls), length (errors ls)), p2)"
    "out p2 = out p1 @ ls"
    "skipped_existing ls =
       map name (filter (\<lambda>l. name l \<in> gh_name ` set L') source_labels)"
    "mset (created ls) + mset (map fst (errors ls)) =
       mset (map name (filter (\<lambda>l. name l \<notin> gh_name ` set L') source_labels))"
    using sync_labels_to_repo_returns [OF L'(1) disjI2 [OF disjI1 [OF present_all]],
        where d=dry_run]
    by (elim exE conjE) (rule that)
  have nl: "new_lines p1 p2 = ls"
    using r(2) by (rule new_lines_append)
  have sk: "skipped_existing ls = map name source_labels"
    using r(3) unfolding present .
  have "mset (created ls) + mset (map fst (errors ls)) = {#}"
    using r(4) unfolding absent by simp
  then have ce: "created ls = []" "errors ls = []"
    by simp_all
  have "sync_labels_to_repo g source_labels target_repo dry_run p1 =
      (Inr (0, length source_labels, 0), p2)"
    unfolding r(1) using sk ce by simp
  then show ?thesis
    using nl sk ce by (intro exI [of _ p2]) simp
qed

theorem second_run_skips_everything_witness:
  "sync_labels_to_repo acme [bug, docs] svc_a False (start hub0) =
     (Inr (1, 1, 0), snd (sync_labels_to_repo acme [bug, docs] svc_a False (start hub0)))
   \<and> (\<exists>p2. sync_labels_to_repo acme [bug, docs] svc_a False
          (snd (sync_labels_to_repo acme [bug, docs] svc_a False (start hub0))) =
          (Inr (0, 2, 0), p2)
        \<and> created (new_lines (snd (sync_labels_to_repo acme [bug, docs] svc_a False
            (start hub0))) p2) = []
        \<and> skipped_existing (new_lines (snd (sync_labels_to_repo acme [bug, docs] svc_a False
            (start hub0))) p2) = [''bug'', ''docs''])"
proof -
  let ?p1 = "snd (sync_labels_to_repo acme [bug, docs] svc_a False (start hub0))"
  have "fst (sync_labels_to_repo acme [bug, docs] svc_a False (start hub0)) = Inr (1, 1, 0)"
    by (simp add: sync_defs example_defs)
  then have h1: "sync_labels_to_repo acme [bug, docs] svc_a False (start hub0) =
      (Inr (1, 1, 0), ?p1)"
    by (simp add: prod_eq_iff)
  have h2: "\<forall>w n c d w' L. api_create_label acme w svc_a n c d = Inr w' \<longrightarrow>
        api_get_labels acme w svc_a = Inr L \<longrightarrow>
        (\<exists>L'. api_get_labels acme w' svc_a = Inr L'
           \<and> insert n (gh_name ` set L) \<subseteq> gh_name ` set L')"
    by (force simp add: acme_def acme_rejecting_def acme_raising_def example_github_def
        labels_of_def svc_a_def)
  from second_run_skips_everything [OF h1 h2, of False] obtain p2 where
    "sync_labels_to_repo acme [bug, docs] svc_a False ?p1 = (Inr (0, length [bug, docs], 0), p2)"
    "created (new_lines ?p1 p2) = []"
    "skipped_existing (new_lines ?p1 p2) = map name [bug, docs]"
    by blast
  then have "sync_labels_to_repo acme [bug, docs] svc_a False ?p1 = (Inr (0, 2, 0), p2)
      \<and> created (new_lines ?p1 p2) = []
      \<and> skipped_existing (new_lines ?p1 p2) = [''bug'', ''docs'']"
    by (simp add: bug_def docs_def)
  then show ?thesis
    using h1 by blast
qed

subsection \<open>The loop over the targets and the end of \<^verbatim>\<open>main\<close>\<close>

lemma get_repo_requests_simps [simp]:
  "get_repo_requests [] = []"
  "get_repo_requests (c # cs) = get_repo_of c @ get_repo_requests cs"
  by (simp_all add: get_repo_requests_def)

lemma get_repo_requests_append [simp]:
  "get_repo_requests (xs @ ys) = get_repo_requests xs @ get_repo_requests ys"
  by (simp add: get_repo_requests_def)

lemma get_repo_requests_creates:
  "get_repo_requests (map (create_call r) ls) = []"
  by (induction ls) (simp_all add: create_call_def)

text \<open>
  \<^verbatim>\<open>sync_labels_to_repo\<close> only adds lines and requests; it prints no final summary and
  requests no repository.
\<close>

lemma sync_labels_to_repo_trace:
  "\<exists>res p' ls cs. sync_labels_to_repo g S r d p = (res, p')
     \<and> out p' = out p @ ls \<and> final_summary ls = []
     \<and> calls p' = calls p @ cs \<and> get_repo_requests cs = []"
proof (cases "api_get_labels g (world p) r")
  case (Inl e)
  define p' where "p' = p\<lparr>out := out p @ [Syncing_labels_to (full_name r)],
      calls := calls p @ [Get_labels (full_name r)]\<rparr>"
  have 1: "sync_labels_to_repo g S r d p = (Inl e, p')"
    unfolding p'_def using Inl by (rule sync_labels_to_repo_failed)
  have 2: "out p' = out p @ [Syncing_labels_to (full_name r)]"
    by (simp add: p'_def)
  have 3: "final_summary [Syncing_labels_to (full_name r)] = []"
    by simp
  have 4: "calls p' = calls p @ [Get_labels (full_name r)]"
    by (simp add: p'_def)
  have 5: "get_repo_requests [Get_labels (full_name r)] = []"
    by simp
  from 1 2 3 4 5 show ?thesis by blast
next
  case (Inr T)
  obtain res p' ls k j where r: "sync_labels_to_repo g S r d p = (res, p')"
    "out p' = out p @ ls" "final_summary ls = []"
    "calls p' = calls p @ Get_labels (full_name r) #
        (if d then [] else map (create_call r)
           (filter (\<lambda>l. name l \<notin> gh_name ` set T) (take k S)))"
    using sync_labels_to_repo_fetched [OF Inr, where S=S and d=d]
    by (elim exE conjE) (rule that)
  have "get_repo_requests (Get_labels (full_name r) #
        (if d then [] else map (create_call r)
           (filter (\<lambda>l. name l \<notin> gh_name ` set T) (take k S)))) = []"
    using get_repo_requests_creates [of r "filter (\<lambda>l. name l \<notin> gh_name ` set T) (take k S)"]
    by simp
  with r show ?thesis by blast
qed

text \<open>The three ways through the body of the loop over the targets.\<close>

lemma sync_target_access_failed:
  assumes "api_get_repo g (world (snd s)) (full_repo_name_of py_str org rn) =
      Inl (GithubException e)"
  shows "sync_target g py_str S org rn s =
     (Inr ((fst s)\<lparr>total_errors := total_errors (fst s) + 1\<rparr>),
      (snd s)\<lparr>out := out (snd s) @
                 [Failed_to_access_repository (full_repo_name_of py_str org rn)],
               calls := calls (snd s) @ [Get_repo (full_repo_name_of py_str org rn)]\<rparr>)"
  using assms by (simp add: sync_target_def get_repo_def print_def Let_def)

lemma sync_target_access_raised:
  assumes "api_get_repo g (world (snd s)) (full_repo_name_of py_str org rn) = Inl x"
    and "\<forall>e. x \<noteq> GithubException e"
  shows "sync_target g py_str S org rn s =
     (Inl x, (snd s)\<lparr>calls := calls (snd s) @ [Get_repo (full_repo_name_of py_str org rn)]\<rparr>)"
  using assms by (cases x) (simp_all add: sync_target_def get_repo_def Let_def)

lemma sync_target_accessed:
  assumes "api_get_repo g (world (snd s)) (full_repo_name_of py_str org rn) = Inr t"
    and "sync_labels_to_repo g S t False
      ((snd s)\<lparr>calls := calls (snd s) @ [Get_repo (full_repo_name_of py_str org rn)]\<rparr>) =
        (res, p2)"
  shows "sync_target g py_str S org rn s =
     (case res of
        Inl x \<Rightarrow>
          (case x of
             GithubException e \<Rightarrow>
               (Inr ((fst s)\<lparr>total_errors := total_errors (fst s) + 1\<rparr>),
                print (Failed_to_access_repository (full_repo_name_of py_str org rn)) p2)
           | _ \<Rightarrow> (Inl x, p2))
      | Inr (n_created, n_skipped, n_errors) \<Rightarrow>
          (Inr ((fst s)\<lparr>total_created := total_created (fst s) + n_created,
                        total_skipped := total_skipped (fst s) + n_skipped,
                        total_errors := total_errors (fst s) + n_errors\<rparr>), p2))"
  using assms by (simp add: sync_target_def get_repo_def Let_def split: sum.splits)

lemma sync_target_trace:
  "\<exists>ls cs. out (snd (sync_target g py_str S org rn s)) = out (snd s) @ ls
     \<and> final_summary ls = []
     \<and> calls (snd (sync_target g py_str S org rn s)) = calls (snd s) @ cs
     \<and> get_repo_requests cs = [full_repo_name_of py_str org rn]"
proof (cases "api_get_repo g (world (snd s)) (full_repo_name_of py_str org rn)")
  case (Inl x)
  have 3: "final_summary [Failed_to_access_repository (full_repo_name_of py_str org rn)] = []"
    "final_summary [] = []"
    by simp_all
  have 4: "get_repo_requests [Get_repo (full_repo_name_of py_str org rn)] =
      [full_repo_name_of py_str org rn]"
    by simp
  show ?thesis
  proof (cases "\<exists>e. x = GithubException e")
    case True
    then obtain e where e: "x = GithubException e" ..
    have 1: "out (snd (sync_target g py_str S org rn s)) =
        out (snd s) @ [Failed_to_access_repository (full_repo_name_of py_str org rn)]"
      and 2: "calls (snd (sync_target g py_str S org rn s)) =
        calls (snd s) @ [Get_repo (full_repo_name_of py_str org rn)]"
      by (simp_all add: sync_target_access_failed [OF Inl [unfolded e]])
    from 1 2 3(1) 4 show ?thesis by blast
  next
    case False
    then have nc: "\<forall>e. x \<noteq> GithubException e"
      by simp
    have 1: "out (snd (sync_target g py_str S org rn s)) = out (snd s) @ []"
      and 2: "calls (snd (sync_target g py_str S org rn s)) =
        calls (snd s) @ [Get_repo (full_repo_name_of py_str org rn)]"
      by (simp_all add: sync_target_access_raised [OF Inl nc])
    from 1 2 3(2) 4 show ?thesis by blast
  qed
next
  case (Inr t)
  define p1 where
    "p1 = (snd s)\<lparr>calls := calls (snd s) @ [Get_repo (full_repo_name_of py_str org rn)]\<rparr>"
  obtain res p2 ls cs where r: "sync_labels_to_repo g S t False p1 = (res, p2)"
      "out p2 = out p1 @ ls" "final_summary ls = []"
      "calls p2 = calls p1 @ cs" "get_repo_requests cs = []"
    using sync_labels_to_repo_trace [of g S t False p1] by blast
  have p1: "out p1 = out (snd s)"
      "calls p1 = calls (snd s) @ [Get_repo (full_repo_name_of py_str org rn)]"
    by (simp_all add: p1_def)
  have 4: "get_repo_requests (Get_repo (full_repo_name_of py_str org rn) # cs) =
      [full_repo_name_of py_str org rn]"
    using r(5) by simp
  have c: "calls p2 = calls (snd s) @ Get_repo (full_repo_name_of py_str org rn) # cs"
    using r(4) p1(2) by simp
  have o: "out p2 = out (snd s) @ ls"
    using r(2) p1(1) by simp
  have "snd (sync_target g py_str S org rn s) = p2
      \<or> snd (sync_target g py_str S org rn s) =
          print (Failed_to_access_repository (full_repo_name_of py_str org rn)) p2"
    unfolding sync_target_accessed [OF Inr r(1) [unfolded p1_def]]
    by (simp split: sum.splits py_exception.splits prod.splits)
  then show ?thesis
  proof
    assume eq: "snd (sync_target g py_str S org rn s) = p2"
    from o c r(3) 4 show ?thesis
      unfolding eq by blast
  next
    assume eq: "snd (sync_target g py_str S org rn s) =
          print (Failed_to_access_repository (full_repo_name_of py_str org rn)) p2"
    have 1: "out (print (Failed_to_access_repository (full_repo_name_of py_str org rn)) p2) =
        out (snd s) @ (ls @ [Failed_to_access_repository (full_repo_name_of py_str org rn)])"
      using o by simp
    have 2: "calls (print (Failed_to_access_repository (full_repo_name_of py_str org rn)) p2) =
        calls (snd s) @ Get_repo (full_repo_name_of py_str org rn) # cs"
      using c by simp
    have 3: "final_summary
        (ls @ [Failed_to_access_repository (full_repo_name_of py_str org rn)]) = []"
      using r(3) by simp
    from 1 2 3 4 show ?thesis
      unfolding eq by blast
  qed
qed

text \<open>
  The loop over the targets requests the repositories of the entries in order, up to the
  entry at which it stops: the last one, unless an exception that is not a
  \<^verbatim>\<open>GithubException\<close> leaves the loop.
\<close>

lemma sync_targets_trace:
  "\<exists>ls cs k. out (snd (sync_targets g py_str S org repos s)) = out (snd s) @ ls
     \<and> final_summary ls = []
     \<and> calls (snd (sync_targets g py_str S org repos s)) = calls (snd s) @ cs
     \<and> k \<le> length repos
     \<and> get_repo_requests cs = map (full_repo_name_of py_str org) (take k repos)
     \<and> (\<forall>tot. fst (sync_targets g py_str S org repos s) = Inr tot \<longrightarrow> k = length repos)"
proof (induction repos arbitrary: s)
  case Nil
  show ?case
    by (intro exI [of _ "[]"] exI [of _ "0::nat"]) simp
next
  case (Cons rn repos)
  obtain res1 q1 where st: "sync_target g py_str S org rn s = (res1, q1)"
    by (cases "sync_target g py_str S org rn s")
  obtain ls1 cs1 where 1: "out q1 = out (snd s) @ ls1" "final_summary ls1 = []"
      "calls q1 = calls (snd s) @ cs1"
      "get_repo_requests cs1 = [full_repo_name_of py_str org rn]"
    using sync_target_trace [of g py_str S org rn s] unfolding st snd_conv
    by (elim exE conjE) (rule that)
  show ?case
  proof (cases res1)
    case (Inl x)
    have eq: "sync_targets g py_str S org (rn # repos) s = (Inl x, q1)"
      using st Inl by simp
    have a: "out q1 = out (snd s) @ ls1" "final_summary ls1 = []"
      "calls q1 = calls (snd s) @ cs1"
      by (rule 1)+
    have k: "Suc 0 \<le> length (rn # repos)"
      by simp
    have d: "get_repo_requests cs1 =
        map (full_repo_name_of py_str org) (take (Suc 0) (rn # repos))"
      using 1(4) by simp
    have e: "\<forall>tot. (Inl x :: py_exception + totals) = Inr tot \<longrightarrow>
        Suc 0 = length (rn # repos)"
      by simp
    show ?thesis
      unfolding eq fst_conv snd_conv
      apply (rule exI [of _ ls1])
      apply (rule exI [of _ cs1])
      apply (rule exI [of _ "Suc 0"])
      apply (intro conjI)
           apply (fact a(1))
          apply (fact a(2))
         apply (fact a(3))
        apply (fact k)
       apply (fact d)
      apply (fact e)
      done
  next
    case (Inr tot1)
    have eq: "sync_targets g py_str S org (rn # repos) s =
        sync_targets g py_str S org repos (tot1, q1)"
      using st Inr by simp
    let ?R = "sync_targets g py_str S org repos (tot1, q1)"
    obtain ls2 cs2 k2 where 2: "out (snd ?R) = out q1 @ ls2" "final_summary ls2 = []"
        "calls (snd ?R) = calls q1 @ cs2" "k2 \<le> length repos"
        "get_repo_requests cs2 = map (full_repo_name_of py_str org) (take k2 repos)"
        "\<forall>tot. fst ?R = Inr tot \<longrightarrow> k2 = length repos"
      using Cons [of "(tot1, q1)"] unfolding snd_conv by (elim exE conjE) (rule that)
    have a: "out (snd ?R) = out (snd s) @ (ls1 @ ls2)"
      using 1(1) 2(1) by simp
    have b: "final_summary (ls1 @ ls2) = []"
      using 1(2) 2(2) by simp
    have c: "calls (snd ?R) = calls (snd s) @ (cs1 @ cs2)"
      using 1(3) 2(3) by simp
    have k: "Suc k2 \<le> length (rn # repos)"
      using 2(4) by simp
    have d: "get_repo_requests (cs1 @ cs2) =
        map (full_repo_name_of py_str org) (take (Suc k2) (rn # repos))"
      using 1(4) 2(5) by simp
    have e: "\<forall>tot. fst ?R = Inr tot \<longrightarrow> Suc k2 = length (rn # repos)"
      using 2(6) by simp
    show ?thesis
      unfolding eq
      apply (rule exI [of _ "ls1 @ ls2"])
      apply (rule exI [of _ "cs1 @ cs2"])
      apply (rule exI [of _ "Suc k2"])
      apply (intro conjI)
           apply (fact a)
          apply (fact b)
         apply (fact c)
        apply (fact k)
       apply (fact d)
      apply (fact e)
      done
  qed
qed

lemma announce_targets:
  "out (foldl (\<lambda>q repo. print (Downstream_repository (f repo)) q) p repos) =
     out p @ map (\<lambda>repo. Downstream_repository (f repo)) repos"
  "calls (foldl (\<lambda>q repo. print (Downstream_repository (f repo)) q) p repos) = calls p"
  "world (foldl (\<lambda>q repo. print (Downstream_repository (f repo)) q) p repos) = world p"
  by (induction repos arbitrary: p) simp_all

lemma final_summary_announced:
  "final_summary (map (\<lambda>repo. Downstream_repository (f repo)) repos) = []"
  by (induction repos) simp_all

text \<open>
  The end of \<^verbatim>\<open>main\<close> once the entries of \<^verbatim>\<open>repos.yaml\<close> are known: the lines printed, the
  requests sent, and the exit status, which is 0 exactly when the final summary is printed
  and reports no error.
\<close>

lemma main_targets_run:
  assumes "load_repos f = Inr v" "py_len v = Inr n" "py_iter v = Inr repos"
  shows "\<exists>ls cs k. out (snd (main_targets g py_str (Some f) S org p)) = out p @ ls
     \<and> calls (snd (main_targets g py_str (Some f) S org p)) = calls p @ cs
     \<and> k \<le> length repos
     \<and> get_repo_requests cs = map (full_repo_name_of py_str org) (take k repos)
     \<and> (final_summary ls \<noteq> [] \<longrightarrow> k = length repos)
     \<and> ((exit_code (fst (main_targets g py_str (Some f) S org p)) = 0) =
          (\<exists>c s. final_summary ls = [(c, s, 0)]))"
proof -
  define p1 where "p1 = foldl (\<lambda>q repo. print (Downstream_repository (py_format py_str repo)) q)
      (print (Downstream_repositories n) p) repos"
  define t0 where "t0 = \<lparr>total_created = 0, total_skipped = 0, total_errors = 0\<rparr>"
  define an where "an = Downstream_repositories n #
        map (\<lambda>repo. Downstream_repository (py_format py_str repo)) repos"
  obtain res q where R: "sync_targets g py_str S org repos (t0, p1) = (res, q)"
    by (cases "sync_targets g py_str S org repos (t0, p1)")
  have p1: "out p1 = out p @ an" "calls p1 = calls p"
    unfolding p1_def an_def by (simp_all add: announce_targets)
  have an: "final_summary an = []"
    unfolding an_def using final_summary_announced [of "py_format py_str" repos] by simp
  obtain ls cs k where t: "out q = out p1 @ ls" "final_summary ls = []"
      "calls q = calls p1 @ cs" "k \<le> length repos"
      "get_repo_requests cs = map (full_repo_name_of py_str org) (take k repos)"
      "\<forall>tot. res = Inr tot \<longrightarrow> k = length repos"
    using sync_targets_trace [of g py_str S org repos "(t0, p1)"] unfolding R fst_conv snd_conv
    by (elim exE conjE) (rule that)
  have M: "main_targets g py_str (Some f) S org p =
      (case res of
         Inl x \<Rightarrow> (Uncaught x, q)
       | Inr tot \<Rightarrow> (Exit (if total_errors tot > 0 then 1 else 0),
           print (Final_summary (total_created tot) (total_skipped tot) (total_errors tot)) q))"
    using assms R [unfolded t0_def p1_def]
    by (simp add: main_targets_def Let_def split: sum.splits)
  have c: "calls q = calls p @ cs"
    using t(3) p1(2) by simp
  show ?thesis
  proof (cases res)
    case (Inl x)
    have M': "main_targets g py_str (Some f) S org p = (Uncaught x, q)"
      unfolding M Inl by simp
    have 1: "out q = out p @ (an @ ls)"
      using t(1) p1(1) by simp
    have 5: "final_summary (an @ ls) = []"
      using an t(2) by simp
    have 6: "final_summary (an @ ls) \<noteq> [] \<longrightarrow> k = length repos"
      using 5 by simp
    have 7: "(exit_code (Uncaught x) = 0) = (\<exists>c s. final_summary (an @ ls) = [(c, s, 0)])"
      using 5 by simp
    show ?thesis
      unfolding M' fst_conv snd_conv
      apply (rule exI [of _ "an @ ls"])
      apply (rule exI [of _ cs])
      apply (rule exI [of _ k])
      apply (intro conjI)
           apply (fact 1)
          apply (fact c)
         apply (fact t(4))
        apply (fact t(5))
       apply (fact 6)
      apply (fact 7)
      done
  next
    case (Inr tot)
    define fs where "fs = Final_summary (total_created tot) (total_skipped tot) (total_errors tot)"
    have M': "main_targets g py_str (Some f) S org p =
        (Exit (if total_errors tot > 0 then 1 else 0), print fs q)"
      unfolding M Inr fs_def by simp
    have 1: "out (print fs q) = out p @ (an @ ls @ [fs])"
      using t(1) p1(1) by simp
    have 2: "calls (print fs q) = calls p @ cs"
      using c by simp
    have k: "k = length repos"
      using t(6) Inr by simp
    have 5: "final_summary (an @ ls @ [fs]) =
        [(total_created tot, total_skipped tot, total_errors tot)]"
      using an t(2) by (simp add: fs_def)
    have 6: "final_summary (an @ ls @ [fs]) \<noteq> [] \<longrightarrow> k = length repos"
      using k by simp
    have 7: "(exit_code (Exit (if total_errors tot > 0 then 1 else 0)) = 0) =
        (\<exists>c s. final_summary (an @ ls @ [fs]) = [(c, s, 0)])"
      unfolding 5 by simp
    show ?thesis
      unfolding M' fst_conv snd_conv
      apply (rule exI [of _ "an @ ls @ [fs]"])
      apply (rule exI [of _ cs])
      apply (rule exI [of _ k])
      apply (intro conjI)
           apply (fact 1)
          apply (fact 2)
         apply (fact t(4))
        apply (fact t(5))
       apply (fact 6)
      apply (fact 7)
      done
  qed
qed

lemma main_targets_stopped:
  assumes "rf = None \<or> (\<exists>f. rf = Some f \<and> (\<exists>x. load_repos f = Inl x
      \<or> (\<exists>v. load_repos f = Inr v \<and> (py_len v = Inl x \<or> py_iter v = Inl x))))"
  shows "exit_code (fst (main_targets g py_str rf S org p)) = 1
     \<and> final_summary (out (snd (main_targets g py_str rf S org p))) = final_summary (out p)
     \<and> calls (snd (main_targets g py_str rf S org p)) = calls p
     \<and> world (snd (main_targets g py_str rf S org p)) = world p"
  using assms by (auto simp add: main_targets_def split: sum.splits)

lemma main_targets_cases:
  obtains (stopped) "rf = None \<or> (\<exists>f. rf = Some f \<and> (\<exists>x. load_repos f = Inl x
      \<or> (\<exists>v. load_repos f = Inr v \<and> (py_len v = Inl x \<or> py_iter v = Inl x))))"
  | (run) f v n repos where "rf = Some f" "load_repos f = Inr v" "py_len v = Inr n"
      "py_iter v = Inr repos"
proof (cases rf)
  case None
  then show ?thesis by (simp add: stopped)
next
  case (Some f)
  show ?thesis
  proof (cases "load_repos f")
    case (Inl x)
    with Some have "rf = None \<or> (\<exists>f. rf = Some f \<and> (\<exists>x. load_repos f = Inl x
        \<or> (\<exists>v. load_repos f = Inr v \<and> (py_len v = Inl x \<or> py_iter v = Inl x))))"
      by blast
    then show ?thesis by (rule stopped)
  next
    case (Inr v)
    show ?thesis
    proof (cases "py_len v")
      case (Inl x)
      with Some Inr have "rf = None \<or> (\<exists>f. rf = Some f \<and> (\<exists>x. load_repos f = Inl x
          \<or> (\<exists>v. load_repos f = Inr v \<and> (py_len v = Inl x \<or> py_iter v = Inl x))))"
        by blast
      then show ?thesis by (rule stopped)
    next
      case n: (Inr n)
      show ?thesis
      proof (cases "py_iter v")
        case (Inl x)
        with Some Inr have "rf = None \<or> (\<exists>f. rf = Some f \<and> (\<exists>x. load_repos f = Inl x
            \<or> (\<exists>v. load_repos f = Inr v \<and> (py_len v = Inl x \<or> py_iter v = Inl x))))"
          by blast
        then show ?thesis by (rule stopped)
      next
        case r: (Inr repos)
        from Some Inr n r show ?thesis by (rule run)
      qed
    qed
  qed
qed

lemma main_targets_exit:
  assumes "final_summary (out p) = []"
  shows "(exit_code (fst (main_targets g py_str rf S org p)) = 0) =
     (\<exists>c s. final_summary (out (snd (main_targets g py_str rf S org p))) = [(c, s, 0)])"
proof (cases rule: main_targets_cases [of rf])
  case stopped
  note s = main_targets_stopped [OF stopped, of g py_str S org p]
  show ?thesis
    unfolding s [THEN conjunct1] s [THEN conjunct2, THEN conjunct1] assms by simp
next
  case (run f v n repos)
  obtain ls where r:
    "out (snd (main_targets g py_str (Some f) S org p)) = out p @ ls"
    "(exit_code (fst (main_targets g py_str (Some f) S org p)) = 0) =
          (\<exists>c s. final_summary ls = [(c, s, 0)])"
    using main_targets_run [OF run(2-4), of g py_str S org p]
    by (elim exE conjE) (rule that)
  have "final_summary (out (snd (main_targets g py_str (Some f) S org p))) = final_summary ls"
    unfolding r(1) using assms by simp
  then show ?thesis
    unfolding run(1) r(2) by simp
qed

text \<open>\<^verbatim>\<open>main\<close> from the access to the source repository on.\<close>

lemma main_source_access_failed:
  assumes "api_get_repo g (world p) current = Inl x"
  shows "exit_code (fst (main_source g py_str rf current p)) = 1
     \<and> final_summary (out (snd (main_source g py_str rf current p))) = final_summary (out p)
     \<and> calls (snd (main_source g py_str rf current p)) = calls p @ [Get_repo current]
     \<and> world (snd (main_source g py_str rf current p)) = world p"
  using assms by (cases x) (simp_all add: main_source_def get_repo_def)

lemma main_source_no_organization:
  assumes "api_get_repo g (world p) current = Inr src" "organization_login src = None"
  shows "main_source g py_str rf current p =
     (Uncaught AttributeError, p\<lparr>calls := calls p @ [Get_repo current]\<rparr>)"
  using assms by (simp add: main_source_def get_repo_def)

lemma main_source_labels_failed:
  assumes "api_get_repo g (world p) current = Inr src" "organization_login src = Some org"
    and "api_get_labels g (world p) src = Inl x"
  shows "main_source g py_str rf current p =
     (Uncaught x,
      p\<lparr>out := out p @ [Source_repository (full_name src), Organization org],
        calls := calls p @ [Get_repo current, Get_labels (full_name src)]\<rparr>)"
  using assms
  by (simp add: main_source_def get_repo_def get_labels_def repo_get_labels_def print_def)

lemma main_source_fetched:
  assumes "api_get_repo g (world p) current = Inr src" "organization_login src = Some org"
    and "api_get_labels g (world p) src = Inr T"
    and "S = map (\<lambda>label. \<lparr>name = gh_name label, color = gh_color label,
        description = (case gh_description label of None \<Rightarrow> [] | Some d \<Rightarrow> d)\<rparr>) T"
  shows "main_source g py_str rf current p =
     main_targets g py_str rf S org
       (p\<lparr>calls := calls p @ [Get_repo current, Get_labels (full_name src)],
          out := out p @ [Source_repository (full_name src), Organization org,
                           Found_labels (length S)]\<rparr>)"
  using assms
  by (simp add: main_source_def get_repo_def get_labels_def repo_get_labels_def print_def)

lemma main_source_exit:
  assumes "final_summary (out p) = []"
  shows "(exit_code (fst (main_source g py_str rf current p)) = 0) =
     (\<exists>c s. final_summary (out (snd (main_source g py_str rf current p))) = [(c, s, 0)])"
proof (cases "api_get_repo g (world p) current")
  case (Inl x)
  note s = main_source_access_failed [OF Inl, of py_str rf]
  show ?thesis
    unfolding s [THEN conjunct1] s [THEN conjunct2, THEN conjunct1] assms by simp
next
  case (Inr src)
  show ?thesis
  proof (cases "organization_login src")
    case None
    show ?thesis
      unfolding main_source_no_organization [OF Inr None]
      using assms by simp
  next
    case (Some org)
    show ?thesis
    proof (cases "api_get_labels g (world p) src")
      case (Inl x)
      show ?thesis
        unfolding main_source_labels_failed [OF Inr Some Inl]
        using assms by simp
    next
      case T: (Inr T)
      define S where "S = map (\<lambda>label. \<lparr>name = gh_name label, color = gh_color label,
        description = (case gh_description label of None \<Rightarrow> [] | Some d \<Rightarrow> d)\<rparr>) T"
      have eq: "main_source g py_str rf current p =
          main_targets g py_str rf S org
            (p\<lparr>calls := calls p @ [Get_repo current, Get_labels (full_name src)],
               out := out p @ [Source_repository (full_name src), Organization org,
                                Found_labels (length S)]\<rparr>)"
        using Inr Some T S_def by (rule main_source_fetched)
      show ?thesis
        unfolding eq
        by (rule main_targets_exit) (simp add: assms)
    qed
  qed
qed

lemma main_exit:
  "(exit_code (fst (main g py_str env rf w)) = 0) =
     (\<exists>c s. final_summary (out (snd (main g py_str env rf w))) = [(c, s, 0)])"
proof -
  have start: "final_summary (out \<lparr>world = w, out = [], calls = []\<rparr>) = []"
    by simp
  have src: "(exit_code (fst (main_source g py_str rf current
        \<lparr>world = w, out = [], calls = []\<rparr>)) = 0) =
     (\<exists>c s. final_summary (out (snd (main_source g py_str rf current
        \<lparr>world = w, out = [], calls = []\<rparr>))) = [(c, s, 0)])" for current
    using start by (rule main_source_exit)
  show ?thesis
  proof (cases "not_set (GITHUB_TOKEN env) \<or> not_set (GITHUB_REPOSITORY env)")
    case True
    then show ?thesis
      by (auto simp add: main_def not_set_def Let_def split: option.splits)
  next
    case False
    then obtain current where "GITHUB_REPOSITORY env = Some current" "current \<noteq> []"
        "\<not> not_set (GITHUB_TOKEN env)"
      by (auto simp add: not_set_def split: option.splits)
    then have "main g py_str env rf w =
        main_source g py_str rf current \<lparr>world = w, out = [], calls = []\<rparr>"
      by (simp add: main_def)
    then show ?thesis
      using src [of current] by simp
  qed
qed

subsection \<open>The exit status\<close>

text \<open>
  C4. The process exits with status 0 exactly when it reaches the end of \<^verbatim>\<open>main\<close> with
  \<^verbatim>\<open>total_errors\<close> equal to 0, that is when the final summary it prints reports no error,
  whatever the number of targets and of labels created; so a final summary with errors
  comes with a status that is not 0, and a run whose list of targets is empty ends with
  the final summary 0, 0, 0 and status 0. When the access to the source repository raises
  an exception the status is 1 and the only request sent is the one for the source
  repository; when the listing of its labels raises one, the exception is not caught, the
  status is 1, and the only requests sent are the two for the source: in both cases no
  target is requested and the remote state is unchanged.
\<close>

theorem exit_zero_iff_no_errors:
  "((exit_code (fst (main g py_str env repos_file w)) = 0) =
      (\<exists>c s. final_summary (out (snd (main g py_str env repos_file w))) = [(c, s, 0)]))
   \<and> (\<forall>c s e. final_summary (out (snd (main g py_str env repos_file w))) = [(c, s, e)]
          \<and> 0 < e \<longrightarrow> exit_code (fst (main g py_str env repos_file w)) \<noteq> 0)
   \<and> (\<not> not_set (GITHUB_TOKEN env) \<and> GITHUB_REPOSITORY env = Some current \<and> current \<noteq> []
        \<longrightarrow>
        (\<forall>x. api_get_repo g w current = Inl x \<longrightarrow>
           exit_code (fst (main g py_str env repos_file w)) = 1
         \<and> calls (snd (main g py_str env repos_file w)) = [Get_repo current]
         \<and> world (snd (main g py_str env repos_file w)) = w)
      \<and> (\<forall>src x. api_get_repo g w current = Inr src \<and> api_get_labels g w src = Inl x \<longrightarrow>
           exit_code (fst (main g py_str env repos_file w)) = 1
         \<and> get_repo_requests (calls (snd (main g py_str env repos_file w))) = [current]
         \<and> (\<forall>a \<in> set (calls (snd (main g py_str env repos_file w))).
               a = Get_repo current \<or> a = Get_labels (full_name src))
         \<and> world (snd (main g py_str env repos_file w)) = w)
      \<and> (\<forall>src org T f. api_get_repo g w current = Inr src
           \<and> organization_login src = Some org \<and> api_get_labels g w src = Inr T
           \<and> repos_file = Some f \<and> load_repos f = Inr (YSeq []) \<longrightarrow>
           fst (main g py_str env repos_file w) = Exit 0
         \<and> final_summary (out (snd (main g py_str env repos_file w))) = [(0, 0, 0)]))"
proof -
  let ?M = "main g py_str env repos_file w"
  let ?p = "\<lparr>world = w, out = [], calls = []\<rparr>"
  have iff: "(exit_code (fst ?M) = 0) = (\<exists>c s. final_summary (out (snd ?M)) = [(c, s, 0)])"
    by (rule main_exit)
  have pos: "\<forall>c s e. final_summary (out (snd ?M)) = [(c, s, e)] \<and> 0 < e \<longrightarrow>
      exit_code (fst ?M) \<noteq> 0"
    unfolding iff by simp
  have src: "(\<forall>x. api_get_repo g w current = Inl x \<longrightarrow>
           exit_code (fst ?M) = 1 \<and> calls (snd ?M) = [Get_repo current] \<and> world (snd ?M) = w)
      \<and> (\<forall>src x. api_get_repo g w current = Inr src \<and> api_get_labels g w src = Inl x \<longrightarrow>
           exit_code (fst ?M) = 1 \<and> get_repo_requests (calls (snd ?M)) = [current]
         \<and> (\<forall>a \<in> set (calls (snd ?M)). a = Get_repo current \<or> a = Get_labels (full_name src))
         \<and> world (snd ?M) = w)
      \<and> (\<forall>src org T f. api_get_repo g w current = Inr src
           \<and> organization_login src = Some org \<and> api_get_labels g w src = Inr T
           \<and> repos_file = Some f \<and> load_repos f = Inr (YSeq []) \<longrightarrow>
           fst ?M = Exit 0 \<and> final_summary (out (snd ?M)) = [(0, 0, 0)])"
    if env: "\<not> not_set (GITHUB_TOKEN env)" "GITHUB_REPOSITORY env = Some current" "current \<noteq> []"
  proof -
    have M: "?M = main_source g py_str repos_file current ?p"
      using env by (simp add: main_def)
    have a: "exit_code (fst ?M) = 1 \<and> calls (snd ?M) = [Get_repo current] \<and> world (snd ?M) = w"
      if "api_get_repo g w current = Inl x" for x
    proof -
      have "api_get_repo g (world ?p) current = Inl x"
        using that by simp
      from main_source_access_failed [OF this, of py_str repos_file] show ?thesis
        unfolding M by simp
    qed
    have b: "exit_code (fst ?M) = 1 \<and> get_repo_requests (calls (snd ?M)) = [current]
         \<and> (\<forall>a \<in> set (calls (snd ?M)). a = Get_repo current \<or> a = Get_labels (full_name src))
         \<and> world (snd ?M) = w"
      if h: "api_get_repo g w current = Inr src" "api_get_labels g w src = Inl x" for src x
    proof (cases "organization_login src")
      case None
      have "api_get_repo g (world ?p) current = Inr src"
        using h(1) by simp
      then show ?thesis
        unfolding M using None by (simp add: main_source_no_organization)
    next
      case (Some org)
      have "api_get_repo g (world ?p) current = Inr src" "api_get_labels g (world ?p) src = Inl x"
        using h by simp_all
      then show ?thesis
        unfolding M using Some by (simp add: main_source_labels_failed)
    qed
    have c: "fst ?M = Exit 0 \<and> final_summary (out (snd ?M)) = [(0, 0, 0)]"
      if h: "api_get_repo g w current = Inr src" "organization_login src = Some org"
        "api_get_labels g w src = Inr T" "repos_file = Some f" "load_repos f = Inr (YSeq [])"
      for src org T f
    proof -
      define S where "S = map (\<lambda>label. \<lparr>name = gh_name label, color = gh_color label,
        description = (case gh_description label of None \<Rightarrow> [] | Some d \<Rightarrow> d)\<rparr>) T"
      have g: "api_get_repo g (world ?p) current = Inr src"
          "api_get_labels g (world ?p) src = Inr T"
        using h(1,3) by simp_all
      have "main_source g py_str repos_file current ?p =
          main_targets g py_str repos_file S org
            (?p\<lparr>calls := calls ?p @ [Get_repo current, Get_labels (full_name src)],
               out := out ?p @ [Source_repository (full_name src), Organization org,
                                Found_labels (length S)]\<rparr>)"
        using g(1) h(2) g(2) S_def by (rule main_source_fetched)
      then show ?thesis
        unfolding M [symmetric] using h(4,5) by (simp add: main_targets_def)
    qed
    from a b c show ?thesis by blast
  qed
  from iff pos src show ?thesis by blast
qed

text \<open>
  Two targets, the second of which has labels that cannot be listed: the final summary
  reports one error and the status is not 0. A source repository that does not exist:
  status 1 after the single request for it.
\<close>

theorem exit_zero_iff_no_errors_witness:
  "final_summary (out (snd (main acme example_str example_env (Some repos_two) hub0))) =
     [(1, 1, 1)]
   \<and> exit_code (fst (main acme example_str example_env (Some repos_two) hub0)) \<noteq> 0
   \<and> api_get_repo acme hub0 ''acme/gone'' = Inl (GithubException not_found)
   \<and> exit_code (fst (main acme example_str env_missing (Some repos_two) hub0)) = 1
   \<and> calls (snd (main acme example_str env_missing (Some repos_two) hub0)) =
       [Get_repo ''acme/gone'']"
proof -
  have h1: "final_summary (out (snd (main acme example_str example_env (Some repos_two) hub0))) =
      [(1, 1, 1)] \<and> (0::nat) < 1"
    by (simp add: main_defs repos_two_def sync_defs example_defs forbidden_def)
  have h2: "\<not> not_set (GITHUB_TOKEN env_missing)
      \<and> GITHUB_REPOSITORY env_missing = Some ''acme/gone'' \<and> ''acme/gone'' \<noteq> []"
    by (simp add: env_missing_def not_set_def)
  have h3: "api_get_repo acme hub0 ''acme/gone'' = Inl (GithubException not_found)"
    by (simp add: example_defs)
  note t1 = exit_zero_iff_no_errors [where g=acme and py_str=example_str and env=example_env
      and repos_file="Some repos_two" and w=hub0]
  note t2 = exit_zero_iff_no_errors [where g=acme and py_str=example_str and env=env_missing
      and repos_file="Some repos_two" and w=hub0 and current="''acme/gone''"]
  from t1 [THEN conjunct2, THEN conjunct1, rule_format, OF h1]
  have a: "exit_code (fst (main acme example_str example_env (Some repos_two) hub0)) \<noteq> 0" .
  from t2 [THEN conjunct2, THEN conjunct2, rule_format, OF h2, THEN conjunct1, rule_format, OF h3]
  have b: "exit_code (fst (main acme example_str env_missing (Some repos_two) hub0)) = 1
      \<and> calls (snd (main acme example_str env_missing (Some repos_two) hub0)) =
          [Get_repo ''acme/gone'']
      \<and> world (snd (main acme example_str env_missing (Some repos_two) hub0)) = hub0" .
  from h1 a h3 b show ?thesis
    by simp
qed

subsection \<open>The names of the targets\<close>

text \<open>
  C5. When the source repository of organisation \<open>org\<close> and its labels are fetched and
  \<^verbatim>\<open>repos.yaml\<close> declares the list \<open>entries\<close>, the repositories requested by the run are
  the source repository and then, for each entry in order, the repository named by the
  organisation, a slash and the entry; an entry that is the string \<open>r\<close> stands for itself,
  so the name requested is \<open>org/r\<close>. No other repository is requested. The entries are
  requested up to the one at which the run stops: all of them when the run prints its
  final summary.
\<close>

theorem targets_resolved_in_source_organization:
  assumes "\<not> not_set (GITHUB_TOKEN env)" "GITHUB_REPOSITORY env = Some current" "current \<noteq> []"
    and "api_get_repo g w current = Inr src" "organization_login src = Some org"
    and "api_get_labels g w src = Inr T"
    and "load_repos f = Inr (YSeq entries)"
  shows "\<exists>k. k \<le> length entries
     \<and> get_repo_requests (calls (snd (main g py_str env (Some f) w))) =
         current # map (\<lambda>entry. org @ ''/'' @ py_format py_str entry) (take k entries)
     \<and> (final_summary (out (snd (main g py_str env (Some f) w))) \<noteq> [] \<longrightarrow>
          k = length entries)
     \<and> (\<forall>r. full_repo_name_of py_str org (YStr r) = org @ ''/'' @ r)"
proof -
  let ?p = "\<lparr>world = w, out = [], calls = []\<rparr>"
  define S where "S = map (\<lambda>label. \<lparr>name = gh_name label, color = gh_color label,
        description = (case gh_description label of None \<Rightarrow> [] | Some d \<Rightarrow> d)\<rparr>) T"
  define p1 where "p1 = ?p\<lparr>calls := calls ?p @ [Get_repo current, Get_labels (full_name src)],
       out := out ?p @ [Source_repository (full_name src), Organization org,
                        Found_labels (length S)]\<rparr>"
  have M: "main g py_str env (Some f) w = main_source g py_str (Some f) current ?p"
    using assms(1-3) by (simp add: main_def)
  have h: "api_get_repo g (world ?p) current = Inr src" "api_get_labels g (world ?p) src = Inr T"
    using assms(4,6) by simp_all
  have src: "main_source g py_str (Some f) current ?p = main_targets g py_str (Some f) S org p1"
    unfolding p1_def using h(1) assms(5) h(2) S_def by (rule main_source_fetched)
  have len: "py_len (YSeq entries) = Inr (length entries)"
    and iter: "py_iter (YSeq entries) = Inr entries"
    by simp_all
  obtain ls cs k where r: "out (snd (main_targets g py_str (Some f) S org p1)) = out p1 @ ls"
      "calls (snd (main_targets g py_str (Some f) S org p1)) = calls p1 @ cs"
      "k \<le> length entries"
      "get_repo_requests cs = map (full_repo_name_of py_str org) (take k entries)"
      "final_summary ls \<noteq> [] \<longrightarrow> k = length entries"
    using main_targets_run [OF assms(7) len iter, of g py_str S org p1]
    by (elim exE conjE) (rule that)
  have name: "full_repo_name_of py_str org = (\<lambda>entry. org @ ''/'' @ py_format py_str entry)"
    by (rule ext) (simp add: full_repo_name_of_def)
  have "get_repo_requests (calls p1) = [current]"
    by (simp add: p1_def)
  then have 1: "get_repo_requests (calls (snd (main g py_str env (Some f) w))) =
      current # map (\<lambda>entry. org @ ''/'' @ py_format py_str entry) (take k entries)"
    unfolding M src r(2) using r(4) by (simp add: name)
  have "final_summary (out p1) = []"
    by (simp add: p1_def)
  then have "final_summary (out (snd (main g py_str env (Some f) w))) = final_summary ls"
    unfolding M src r(1) by simp
  then have 2: "final_summary (out (snd (main g py_str env (Some f) w))) \<noteq> [] \<longrightarrow>
      k = length entries"
    using r(5) by simp
  have 3: "\<forall>r. full_repo_name_of py_str org (YStr r) = org @ ''/'' @ r"
    by (simp add: full_repo_name_of_def py_format_def)
  from r(3) 1 2 3 show ?thesis
    by blast
qed

theorem targets_resolved_in_source_organization_witness:
  "api_get_repo acme hub0 ''acme/labels'' =
     Inr \<lparr>full_name = ''acme/labels'', organization_login = Some ''acme''\<rparr>
   \<and> load_repos repos_two = Inr (YSeq [YStr ''svc-a'', YStr ''svc-b''])
   \<and> get_repo_requests (calls (snd (main acme example_str example_env (Some repos_two) hub0))) =
       [''acme/labels'', ''acme/svc-a'', ''acme/svc-b'']"
proof -
  let ?src = "\<lparr>full_name = ''acme/labels'', organization_login = Some ''acme''\<rparr>"
  have h: "\<not> not_set (GITHUB_TOKEN example_env)"
      "GITHUB_REPOSITORY example_env = Some ''acme/labels''" "''acme/labels'' \<noteq> []"
    by (simp_all add: example_env_def not_set_def)
  have h4: "api_get_repo acme hub0 ''acme/labels'' = Inr ?src"
    and h5: "organization_login ?src = Some ''acme''"
    and h6: "api_get_labels acme hub0 ?src = Inr [gh_bug, gh_docs]"
    and h7: "load_repos repos_two = Inr (YSeq [YStr ''svc-a'', YStr ''svc-b''])"
    by (simp_all add: example_defs load_repos_def repos_two_def)
  have fs: "final_summary (out (snd (main acme example_str example_env (Some repos_two) hub0)))
      \<noteq> []"
    by (simp add: main_defs repos_two_def sync_defs example_defs forbidden_def)
  from targets_resolved_in_source_organization [OF h h4 h5 h6 h7, of example_str]
  obtain k where k: "get_repo_requests
        (calls (snd (main acme example_str example_env (Some repos_two) hub0))) =
         ''acme/labels'' # map (\<lambda>entry. ''acme'' @ ''/'' @ py_format example_str entry)
           (take k [YStr ''svc-a'', YStr ''svc-b''])"
      "final_summary (out (snd (main acme example_str example_env (Some repos_two) hub0))) \<noteq> []
         \<longrightarrow> k = length [YStr ''svc-a'', YStr ''svc-b'']"
    by (elim exE conjE) (rule that)
  from k(2) fs have "k = 2"
    by simp
  with k(1) have "get_repo_requests
      (calls (snd (main acme example_str example_env (Some repos_two) hub0))) =
       [''acme/labels'', ''acme/svc-a'', ''acme/svc-b'']"
    by (simp add: py_format_def)
  with h4 h7 show ?thesis
    by simp
qed

subsection \<open>Failures\<close>

text \<open>
  C6, as stated, fails when the create call raises an exception that is not a
  \<^verbatim>\<open>GithubException\<close>: the \<^verbatim>\<open>except\<close> clauses of \<^verbatim>\<open>sync_labels_to_repo\<close> and of \<^verbatim>\<open>main\<close>
  name that class only. Here the connection fails when \<open>docs\<close> is created in
  \<open>acme/svc-a\<close>: no error is recorded for \<open>docs\<close>, the label \<open>wontfix\<close> that follows is
  not processed, and the run stops without a request for the next target \<open>acme/svc-b\<close>.
\<close>

theorem uncaught_create_stops_the_run:
  "sync_labels_to_repo acme_offline [bug, docs, wontfix] svc_a False (start hub0) =
       (Inl (Other_exception ''ConnectionError''),
        \<lparr>world = hub0,
         out = [Syncing_labels_to ''acme/svc-a'', Label_already_exists ''bug''],
         calls = [Get_labels ''acme/svc-a'',
                  Create_label ''acme/svc-a'' ''docs'' ''0000ff'' ''Documentation'']\<rparr>)
   \<and> errors [Syncing_labels_to ''acme/svc-a'', Label_already_exists ''bug''] = []
   \<and> fst (main acme_offline example_str example_env (Some repos_two) hub0) =
       Uncaught (Other_exception ''ConnectionError'')
   \<and> calls (snd (main acme_offline example_str example_env (Some repos_two) hub0)) =
       [Get_repo ''acme/labels'', Get_labels ''acme/labels'',
        Get_repo ''acme/svc-a'', Get_labels ''acme/svc-a'',
        Create_label ''acme/svc-a'' ''docs'' ''0000ff'' ''Documentation'']"
  by (simp add: acme_offline_def main_defs repos_two_def sync_defs example_defs wontfix_def)

text \<open>
  C6, amended. In a real run, when the create call for a label \<open>l\<close> absent from the target
  raises a \<^verbatim>\<open>GithubException\<close> whose data holds a message, the loop over the source labels
  adds one to the error counter, leaves the two other counters as they are, prints the
  failure with the message of the exception, and goes on with the labels after \<open>l\<close>. When
  the listing of the labels of a target raises a \<^verbatim>\<open>GithubException\<close>, the loop over the
  targets adds one to the total of errors, nothing to the totals of created and skipped
  labels, and goes on with the targets after it.
\<close>

theorem failures_are_isolated:
  "(sync_loop g r existing_labels False pre s = (Inr t1, p1)
      \<and> existing_labels (name l) = None
      \<and> api_create_label g (world p1) r (name l) (color l) (description l) =
          Inl (GithubException e)
      \<and> message e = Inr m \<longrightarrow>
      sync_loop g r existing_labels False (pre @ l # post) s =
        sync_loop g r existing_labels False post
          (t1\<lparr>error_count := error_count t1 + 1\<rparr>,
           print (Failed_to_create_label (name l) m)
             (p1\<lparr>calls := calls p1 @ [create_call r l]\<rparr>)))
   \<and> (api_get_repo g (world (snd st)) (full_repo_name_of py_str org rn) = Inr t
      \<and> api_get_labels g (world (snd st)) t = Inl (GithubException e') \<longrightarrow>
      sync_targets g py_str S org (rn # rest) st =
        sync_targets g py_str S org rest
          ((fst st)\<lparr>total_errors := total_errors (fst st) + 1\<rparr>,
           (snd st)\<lparr>out := out (snd st) @ [Syncing_labels_to (full_name t),
                        Failed_to_access_repository (full_repo_name_of py_str org rn)],
                    calls := calls (snd st) @ [Get_repo (full_repo_name_of py_str org rn),
                        Get_labels (full_name t)]\<rparr>))"
proof -
  have a: "sync_loop g r existing_labels False (pre @ l # post) s =
        sync_loop g r existing_labels False post
          (t1\<lparr>error_count := error_count t1 + 1\<rparr>,
           print (Failed_to_create_label (name l) m)
             (p1\<lparr>calls := calls p1 @ [create_call r l]\<rparr>))"
    if h: "sync_loop g r existing_labels False pre s = (Inr t1, p1)"
      "existing_labels (name l) = None"
      "api_create_label g (world p1) r (name l) (color l) (description l) =
          Inl (GithubException e)"
      "message e = Inr m"
  proof -
    have c: "api_create_label g (world (snd (t1, p1))) r (name l) (color l) (description l) =
          Inl (GithubException e)"
      using h(3) by simp
    have "sync_label g r existing_labels False l (t1, p1) =
        (Inr ((fst (t1, p1))\<lparr>error_count := error_count (fst (t1, p1)) + 1\<rparr>),
         print (Failed_to_create_label (name l) m)
           ((snd (t1, p1))\<lparr>calls := calls (snd (t1, p1)) @ [create_call r l]\<rparr>))"
      using h(2) c h(4)
      by (rule sync_label_fail [where ex=existing_labels and l=l and s="(t1, p1)" and g=g and r=r])
    then have 1: "sync_loop g r existing_labels False (l # post) (t1, p1) =
        sync_loop g r existing_labels False post
          (t1\<lparr>error_count := error_count t1 + 1\<rparr>,
           print (Failed_to_create_label (name l) m)
             (p1\<lparr>calls := calls p1 @ [create_call r l]\<rparr>))"
      by simp
    have "sync_loop g r existing_labels False (pre @ l # post) s =
        sync_loop g r existing_labels False (l # post) (t1, p1)"
      unfolding sync_loop_append h(1) by simp
    then show ?thesis
      unfolding 1 .
  qed
  have b: "sync_targets g py_str S org (rn # rest) st =
        sync_targets g py_str S org rest
          ((fst st)\<lparr>total_errors := total_errors (fst st) + 1\<rparr>,
           (snd st)\<lparr>out := out (snd st) @ [Syncing_labels_to (full_name t),
                        Failed_to_access_repository (full_repo_name_of py_str org rn)],
                    calls := calls (snd st) @ [Get_repo (full_repo_name_of py_str org rn),
                        Get_labels (full_name t)]\<rparr>)"
    if h: "api_get_repo g (world (snd st)) (full_repo_name_of py_str org rn) = Inr t"
      "api_get_labels g (world (snd st)) t = Inl (GithubException e')"
  proof -
    define p1 where "p1 =
      (snd st)\<lparr>calls := calls (snd st) @ [Get_repo (full_repo_name_of py_str org rn)]\<rparr>"
    have "api_get_labels g (world p1) t = Inl (GithubException e')"
      using h(2) by (simp add: p1_def)
    then have "sync_labels_to_repo g S t False p1 =
        (Inl (GithubException e'), p1\<lparr>out := out p1 @ [Syncing_labels_to (full_name t)],
                   calls := calls p1 @ [Get_labels (full_name t)]\<rparr>)"
      by (rule sync_labels_to_repo_failed)
    from sync_target_accessed [OF h(1) this [unfolded p1_def]]
    have "sync_target g py_str S org rn st =
        (Inr ((fst st)\<lparr>total_errors := total_errors (fst st) + 1\<rparr>),
           (snd st)\<lparr>out := out (snd st) @ [Syncing_labels_to (full_name t),
                        Failed_to_access_repository (full_repo_name_of py_str org rn)],
                    calls := calls (snd st) @ [Get_repo (full_repo_name_of py_str org rn),
                        Get_labels (full_name t)]\<rparr>)"
      by (simp add: print_def)
    then show ?thesis by simp
  qed
  from a b show ?thesis by blast
qed

text \<open>
  The service refuses \<open>docs\<close> with a message: the loop counts one error for it and then
  creates \<open>wontfix\<close>. The labels of \<open>acme/svc-b\<close> cannot be listed: the loop over the
  targets counts one error for it and then synchronises \<open>acme/svc-a\<close>.
\<close>

theorem failures_are_isolated_witness:
  "sync_loop (acme_rejecting [''docs'']) svc_a (existing_labels_of [gh_bug]) False [bug]
       (no_tally, start hub0) =
     (Inr \<lparr>created_count = 0, skipped_count = 1, error_count = 0\<rparr>,
      \<lparr>world = hub0, out = [Label_already_exists ''bug''], calls = []\<rparr>)
   \<and> api_create_label (acme_rejecting [''docs'']) hub0 svc_a (name docs) (color docs)
       (description docs) = Inl (GithubException validation_failed)
   \<and> message validation_failed = Inr ''Validation Failed''
   \<and> fst (sync_loop (acme_rejecting [''docs'']) svc_a (existing_labels_of [gh_bug]) False
       ([bug] @ docs # [wontfix]) (no_tally, start hub0)) =
       Inr \<lparr>created_count = 1, skipped_count = 1, error_count = 1\<rparr>
   \<and> out (snd (sync_loop (acme_rejecting [''docs'']) svc_a (existing_labels_of [gh_bug]) False
       ([bug] @ docs # [wontfix]) (no_tally, start hub0))) =
       [Label_already_exists ''bug'', Failed_to_create_label ''docs'' ''Validation Failed'',
        Created_label ''wontfix'']
   \<and> api_get_labels acme hub0 svc_b = Inl (GithubException forbidden)
   \<and> fst (sync_targets acme example_str [bug, docs] ''acme'' [YStr ''svc-b'', YStr ''svc-a'']
       (no_totals, start hub0)) =
       Inr \<lparr>total_created = 1, total_skipped = 1, total_errors = 1\<rparr>"
proof -
  let ?g = "acme_rejecting [''docs'']"
  let ?p1 = "\<lparr>world = hub0, out = [Label_already_exists ''bug''], calls = []\<rparr>"
  let ?t1 = "\<lparr>created_count = 0, skipped_count = 1, error_count = 0\<rparr>"
  have h1: "sync_loop ?g svc_a (existing_labels_of [gh_bug]) False [bug] (no_tally, start hub0) =
      (Inr ?t1, ?p1)"
    by (simp add: sync_defs example_defs no_tally_def)
  have h2: "existing_labels_of [gh_bug] (name docs) = None"
    by (simp add: existing_labels_of_def example_defs)
  have h3: "api_create_label ?g (world ?p1) svc_a (name docs) (color docs) (description docs) =
      Inl (GithubException validation_failed)"
    by (simp add: example_defs)
  have h4: "message validation_failed = Inr ''Validation Failed''"
    by (simp add: message_def validation_failed_def)
  have h5: "api_get_repo acme (world (snd (no_totals, start hub0)))
        (full_repo_name_of example_str ''acme'' (YStr ''svc-b'')) = Inr svc_b
      \<and> api_get_labels acme (world (snd (no_totals, start hub0))) svc_b =
          Inl (GithubException forbidden)"
    by (simp add: example_defs svc_b_def full_repo_name_of_def py_format_def)
  note t = failures_are_isolated [where g="?g" and r=svc_a
      and existing_labels="existing_labels_of [gh_bug]" and pre="[bug]"
      and s="(no_tally, start hub0)" and ?t1.0="?t1" and ?p1.0="?p1" and l=docs
      and e=validation_failed and m="''Validation Failed''" and post="[wontfix]"]
  note u = failures_are_isolated [where g=acme and st="(no_totals, start hub0)"
      and py_str=example_str and org="''acme''" and rn="YStr ''svc-b''" and t=svc_b
      and e'=forbidden and S="[bug, docs]" and rest="[YStr ''svc-a'']"]
  have a: "sync_loop ?g svc_a (existing_labels_of [gh_bug]) False ([bug] @ docs # [wontfix])
      (no_tally, start hub0) =
      sync_loop ?g svc_a (existing_labels_of [gh_bug]) False [wontfix]
        (?t1\<lparr>error_count := error_count ?t1 + 1\<rparr>,
         print (Failed_to_create_label (name docs) ''Validation Failed'')
           (?p1\<lparr>calls := calls ?p1 @ [create_call svc_a docs]\<rparr>))"
    using t [THEN conjunct1] h1 h2 h3 h4 by blast
  have b: "sync_targets acme example_str [bug, docs] ''acme'' (YStr ''svc-b'' # [YStr ''svc-a''])
      (no_totals, start hub0) =
      sync_targets acme example_str [bug, docs] ''acme'' [YStr ''svc-a'']
        ((fst (no_totals, start hub0))
           \<lparr>total_errors := total_errors (fst (no_totals, start hub0)) + 1\<rparr>,
         (snd (no_totals, start hub0))
           \<lparr>out := out (snd (no_totals, start hub0)) @ [Syncing_labels_to (full_name svc_b),
              Failed_to_access_repository (full_repo_name_of example_str ''acme''
                (YStr ''svc-b''))],
            calls := calls (snd (no_totals, start hub0)) @
              [Get_repo (full_repo_name_of example_str ''acme'' (YStr ''svc-b'')),
               Get_labels (full_name svc_b)]\<rparr>)"
    using u [THEN conjunct2] h5 by blast
  have a': "fst (sync_loop ?g svc_a (existing_labels_of [gh_bug]) False
        ([bug] @ docs # [wontfix]) (no_tally, start hub0)) =
        Inr \<lparr>created_count = 1, skipped_count = 1, error_count = 1\<rparr>
      \<and> out (snd (sync_loop ?g svc_a (existing_labels_of [gh_bug]) False
        ([bug] @ docs # [wontfix]) (no_tally, start hub0))) =
        [Label_already_exists ''bug'', Failed_to_create_label ''docs'' ''Validation Failed'',
         Created_label ''wontfix'']"
    unfolding a by (simp add: sync_defs example_defs wontfix_def create_call_def)
  have b': "fst (sync_targets acme example_str [bug, docs] ''acme''
        [YStr ''svc-b'', YStr ''svc-a''] (no_totals, start hub0)) =
        Inr \<lparr>total_created = 1, total_skipped = 1, total_errors = 1\<rparr>"
    unfolding b
    by (simp add: sync_target_def get_repo_def full_repo_name_of_def py_format_def sync_defs
        example_defs no_totals_def svc_b_def)
  have h6: "api_get_labels acme hub0 svc_b = Inl (GithubException forbidden)"
    by (simp add: example_defs svc_b_def)
  from h1 h3 h4 a' h6 b' show ?thesis
    by simp
qed

subsection \<open>The list of targets\<close>

text \<open>
  C8. \<^verbatim>\<open>load_repos\<close> returns the empty list when the document is a dictionary without
  the key \<^verbatim>\<open>repos\<close>, or with an empty list under it, and \<^verbatim>\<open>main\<close> then ends with status 0.
  When the key is there with no value, the document parses, \<^verbatim>\<open>load_repos\<close> returns
  \<^verbatim>\<open>None\<close> and not the empty list, and \<^verbatim>\<open>main\<close> stops on the \<^verbatim>\<open>TypeError\<close> of \<^verbatim>\<open>len\<close>, with
  status 1. On an empty document \<^verbatim>\<open>load_repos\<close> itself raises \<^verbatim>\<open>AttributeError\<close>.
\<close>

theorem load_repos_empty_value:
  "load_repos (Document (YMap [])) = Inr (YSeq [])
   \<and> load_repos repos_none = Inr (YSeq [])
   \<and> fst (main acme example_str example_env (Some repos_none) hub0) = Exit 0
   \<and> load_repos repos_null = Inr YNull
   \<and> fst (main acme example_str example_env (Some repos_null) hub0) = Uncaught TypeError
   \<and> exit_code (fst (main acme example_str example_env (Some repos_null) hub0)) = 1
   \<and> load_repos (Document YNull) = Inl AttributeError"
  by (simp add: main_defs repos_none_def repos_null_def sync_defs example_defs)

end
